theory Spec2Isabelle
  imports Main "HOL-Library.Word" "HOL-Library.List_Lexorder" "HOL-Library.Product_Lexorder"
    "HOL-Library.Multiset"
begin

section \<open>JavaScript values and strings\<close>

text \<open>
  A JavaScript string is a sequence of UTF-16 code units. String literals of the source
  are written \<open>js ''...''\<close>. Octets (UTF-8 output, always below 256) are natural numbers.
\<close>

type_synonym codeunit = "16 word"
type_synonym jsstring = "codeunit list"

definition cu :: "char \<Rightarrow> codeunit" where
  "cu c = of_nat (of_char c)"

definition js :: "string \<Rightarrow> jsstring" where
  "js s = map cu s"

text \<open>
  The values the signer handles: \<open>undefined\<close> (a missing configuration entry), numbers
  (only integers occur: the timestamp) and strings.
\<close>

datatype jsval = JSUndefined | JSNumber int | JSString jsstring

datatype error = Error jsstring | TypeError | URIError

text \<open>\<open>!v\<close> is true for \<open>undefined\<close>, the empty string and zero.\<close>

fun truthy :: "jsval \<Rightarrow> bool" where
  "truthy JSUndefined = False"
| "truthy (JSNumber n) = (n \<noteq> 0)"
| "truthy (JSString s) = (s \<noteq> [])"

text \<open>\<open>Number.prototype.toString(radix)\<close> on a non-negative integer: lower-case digits,
  no padding.\<close>

definition digitChar :: "nat \<Rightarrow> codeunit" where
  "digitChar d = (if d < 10 then of_nat (48 + d) else of_nat (97 + (d - 10)))"

function toRadix :: "nat \<Rightarrow> nat \<Rightarrow> jsstring" where
  "toRadix b n = (if n < b \<or> b < 2 then [digitChar n] else toRadix b (n div b) @ [digitChar (n mod b)])"
  by pat_completeness auto
termination
  by (relation "measure snd") auto

declare toRadix.simps [simp del]

fun ToString :: "jsval \<Rightarrow> jsstring" where
  "ToString JSUndefined = js ''undefined''"
| "ToString (JSNumber i) = (if i < 0 then cu CHR ''-'' # toRadix 10 (nat (- i)) else toRadix 10 (nat i))"
| "ToString (JSString s) = s"

text \<open>\<open>String.prototype.toUpperCase\<close>, on the ASCII letters (the source applies it to
  hexadecimal digit strings only).\<close>

definition upperUnit :: "codeunit \<Rightarrow> codeunit" where
  "upperUnit c = (if 0x61 \<le> c \<and> c \<le> 0x7A then c - 0x20 else c)"

definition toUpperCase :: "jsstring \<Rightarrow> jsstring" where
  "toUpperCase s = map upperUnit s"

text \<open>\<open>Array.prototype.join\<close> on an array of strings.\<close>

fun join :: "jsstring \<Rightarrow> jsstring list \<Rightarrow> jsstring" where
  "join sep [] = []"
| "join sep [x] = x"
| "join sep (x # y # ys) = x @ sep @ join sep (y # ys)"

section \<open>Percent-encoding\<close>

text \<open>
  \<open>encodeURIComponent\<close> is the ECMAScript operation \<open>Encode(string, "")\<close>: a code unit
  among the ASCII letters, digits and \<open>_ - . ! ~ * ' ( )\<close> is copied; any other code
  point is UTF-8 encoded and each octet written as \<open>%\<close> and two upper-case hexadecimal
  digits; an unpaired surrogate raises URIError.
\<close>

definition isAlnum :: "codeunit \<Rightarrow> bool" where
  "isAlnum c \<longleftrightarrow> (0x41 \<le> c \<and> c \<le> 0x5A) \<or> (0x61 \<le> c \<and> c \<le> 0x7A) \<or> (0x30 \<le> c \<and> c \<le> 0x39)"

definition uriUnescaped :: "codeunit \<Rightarrow> bool" where
  "uriUnescaped c \<longleftrightarrow> isAlnum c \<or> c \<in> set (js ''_-.!~*'()'')"

definition isLeadSurrogate :: "codeunit \<Rightarrow> bool" where
  "isLeadSurrogate c \<longleftrightarrow> 0xD800 \<le> c \<and> c \<le> 0xDBFF"

definition isTrailSurrogate :: "codeunit \<Rightarrow> bool" where
  "isTrailSurrogate c \<longleftrightarrow> 0xDC00 \<le> c \<and> c \<le> 0xDFFF"

definition surrogatePair :: "codeunit \<Rightarrow> codeunit \<Rightarrow> nat" where
  "surrogatePair lead trail = (unat lead - 0xD800) * 0x400 + (unat trail - 0xDC00) + 0x10000"

definition utf8 :: "nat \<Rightarrow> nat list" where
  "utf8 cp =
     (if cp < 0x80 then [cp]
      else if cp < 0x800 then [0xC0 + cp div 0x40, 0x80 + cp mod 0x40]
      else if cp < 0x10000 then [0xE0 + cp div 0x1000, 0x80 + cp div 0x40 mod 0x40, 0x80 + cp mod 0x40]
      else [0xF0 + cp div 0x40000, 0x80 + cp div 0x1000 mod 0x40, 0x80 + cp div 0x40 mod 0x40,
            0x80 + cp mod 0x40])"

definition hexUpper :: "nat \<Rightarrow> codeunit" where
  "hexUpper d = (if d < 10 then of_nat (48 + d) else of_nat (65 + (d - 10)))"

definition pctOctet :: "nat \<Rightarrow> jsstring" where
  "pctOctet b = [cu CHR ''%'', hexUpper (b div 16), hexUpper (b mod 16)]"

definition pctOctets :: "nat list \<Rightarrow> jsstring" where
  "pctOctets bs = concat (map pctOctet bs)"

definition prependE :: "jsstring \<Rightarrow> error + jsstring \<Rightarrow> error + jsstring" where
  "prependE xs r = (case r of Inl e \<Rightarrow> Inl e | Inr ys \<Rightarrow> Inr (xs @ ys))"

fun Encode :: "jsstring \<Rightarrow> error + jsstring" where
  "Encode [] = Inr []"
| "Encode (c # cs) =
     (if uriUnescaped c then prependE [c] (Encode cs)
      else if \<not> isLeadSurrogate c \<and> \<not> isTrailSurrogate c
        then prependE (pctOctets (utf8 (unat c))) (Encode cs)
      else if isTrailSurrogate c then Inl URIError
      else (case cs of
              [] \<Rightarrow> Inl URIError
            | d # ds \<Rightarrow>
                if isTrailSurrogate d
                then prependE (pctOctets (utf8 (surrogatePair c d))) (Encode ds)
                else Inl URIError))"

definition encodeURIComponent :: "jsval \<Rightarrow> error + jsstring" where
  "encodeURIComponent v = Encode (ToString v)"

text \<open>
  \<open>.replace(/[!'()*]/g, c => '%' + c.charCodeAt(0).toString(16).toUpperCase())\<close>
\<close>

definition replaceSpecial :: "codeunit \<Rightarrow> jsstring" where
  "replaceSpecial c =
     (if c \<in> set (js ''!'()*'') then cu CHR ''%'' # toUpperCase (toRadix 16 (unat c)) else [c])"

definition replaceSpecials :: "jsstring \<Rightarrow> jsstring" where
  "replaceSpecials s = concat (map replaceSpecial s)"

definition encodeRFC3986 :: "jsval \<Rightarrow> error + jsstring" where
  "encodeRFC3986 str =
     (case encodeURIComponent str of Inl e \<Rightarrow> Inl e | Inr s \<Rightarrow> Inr (replaceSpecials s))"

subsection \<open>The encoding as the specification words it\<close>

text \<open>
  The UTF-8 octets of a string (none when it holds an unpaired surrogate), and the
  RFC 3986 rule on octets: an unreserved octet (letter, digit, \<open>- . _ ~\<close>) is copied, any
  other is written \<open>%XX\<close>.
\<close>

fun codePoints :: "jsstring \<Rightarrow> nat list option" where
  "codePoints [] = Some []"
| "codePoints (c # cs) =
     (if \<not> isLeadSurrogate c \<and> \<not> isTrailSurrogate c
        then map_option ((#) (unat c)) (codePoints cs)
      else if isTrailSurrogate c then None
      else (case cs of
              [] \<Rightarrow> None
            | d # ds \<Rightarrow>
                if isTrailSurrogate d then map_option ((#) (surrogatePair c d)) (codePoints ds)
                else None))"

definition utf8_octets :: "jsstring \<Rightarrow> nat list option" where
  "utf8_octets s = map_option (\<lambda>cps. concat (map utf8 cps)) (codePoints s)"

definition unreserved_octet :: "nat \<Rightarrow> bool" where
  "unreserved_octet b \<longleftrightarrow>
     (65 \<le> b \<and> b \<le> 90) \<or> (97 \<le> b \<and> b \<le> 122) \<or> (48 \<le> b \<and> b \<le> 57) \<or>
     b = 45 \<or> b = 46 \<or> b = 95 \<or> b = 126"

definition rfc3986_octet :: "nat \<Rightarrow> jsstring" where
  "rfc3986_octet b = (if unreserved_octet b then [of_nat b] else pctOctet b)"

definition rfc3986_octets :: "nat list \<Rightarrow> jsstring" where
  "rfc3986_octets bs = concat (map rfc3986_octet bs)"

section \<open>Objects\<close>

text \<open>
  An object is the list of its own enumerable string-keyed properties in insertion order.
  \<open>setOwn\<close> overwrites a property in place or appends it. \<open>assign\<close> is \<open>o[k] = v\<close> on an
  object created by \<open>{}\<close>: the key \<open>__proto__\<close> reaches the inherited setter, which
  ignores a string and creates no property. \<open>Object.keys\<close> lists the array indices
  (canonical decimal numerals up to \<open>2^32 - 2\<close>) first, in ascending numeric order, then
  the other keys in insertion order.
\<close>

type_synonym obj = "(jsstring \<times> jsval) list"

fun setOwn :: "obj \<Rightarrow> jsstring \<Rightarrow> jsval \<Rightarrow> obj" where
  "setOwn [] k v = [(k, v)]"
| "setOwn ((k', v') # ps) k v = (if k' = k then (k, v) # ps else (k', v') # setOwn ps k v)"

definition assign :: "obj \<Rightarrow> jsstring \<Rightarrow> jsval \<Rightarrow> obj" where
  "assign ob k v = (if k = js ''__proto__'' then ob else setOwn ob k v)"

definition getProp :: "obj \<Rightarrow> jsstring \<Rightarrow> jsval" where
  "getProp ob k = (case map_of ob k of None \<Rightarrow> JSUndefined | Some v \<Rightarrow> v)"

definition spread :: "obj \<Rightarrow> obj \<Rightarrow> obj" where
  "spread a b = foldl (\<lambda>ob (k, v). setOwn ob k v) a b"

definition isDigit :: "codeunit \<Rightarrow> bool" where
  "isDigit c \<longleftrightarrow> 0x30 \<le> c \<and> c \<le> 0x39"

definition decimalValue :: "jsstring \<Rightarrow> nat" where
  "decimalValue k = foldl (\<lambda>n c. 10 * n + (unat c - 48)) 0 k"

definition isArrayIndex :: "jsstring \<Rightarrow> bool" where
  "isArrayIndex k \<longleftrightarrow>
     k \<noteq> [] \<and> list_all isDigit k \<and> (length k = 1 \<or> hd k \<noteq> 0x30) \<and>
     decimalValue k \<le> 4294967294"

definition Object_keys :: "obj \<Rightarrow> jsstring list" where
  "Object_keys ob =
     sort_key decimalValue (filter isArrayIndex (map fst ob)) @
     filter (\<lambda>k. \<not> isArrayIndex k) (map fst ob)"

section \<open>Errors as values\<close>

definition bindE :: "error + 'a \<Rightarrow> ('a \<Rightarrow> error + 'b) \<Rightarrow> error + 'b" where
  "bindE r f = (case r of Inl e \<Rightarrow> Inl e | Inr x \<Rightarrow> f x)"

fun mapE :: "('a \<Rightarrow> error + 'b) \<Rightarrow> 'a list \<Rightarrow> error + 'b list" where
  "mapE f [] = Inr []"
| "mapE f (x # xs) = bindE (f x) (\<lambda>y. bindE (mapE f xs) (\<lambda>ys. Inr (y # ys)))"

section \<open>Configuration and constructor\<close>

record config =
  accountId :: jsval
  consumerKey :: jsval
  consumerSecret :: jsval
  tokenId :: jsval
  tokenSecret :: jsval
  restletUrl :: jsval

definition required :: "(jsstring \<times> (config \<Rightarrow> jsval)) list" where
  "required =
     [(js ''accountId'', accountId), (js ''consumerKey'', consumerKey),
      (js ''consumerSecret'', consumerSecret), (js ''tokenId'', tokenId),
      (js ''tokenSecret'', tokenSecret), (js ''restletUrl'', restletUrl)]"

definition missing :: "config \<Rightarrow> jsstring list" where
  "missing cfg = map fst (filter (\<lambda>(key, field). \<not> truthy (field cfg)) required)"

definition validateConfig :: "config \<Rightarrow> error + unit" where
  "validateConfig cfg =
     (if length (missing cfg) > 0
      then Inl (Error (js ''Missing required configuration: '' @ join (js '', '') (missing cfg)))
      else Inr ())"

text \<open>The constructor stores the configuration and validates it; the constructed
  object is its configuration.\<close>

definition NetSuiteDownloader :: "config \<Rightarrow> error + config" where
  "NetSuiteDownloader cfg = bindE (validateConfig cfg) (\<lambda>_. Inr cfg)"

section \<open>The platform\<close>

text \<open>
  A parsed URL as the WHATWG URL record: \<open>port\<close> is absent when it is the scheme's
  default; \<open>searchParams\<close> are the decoded query pairs in order. The getters \<open>protocol\<close>
  and \<open>host\<close> are those of the URL class.
\<close>

record url =
  scheme :: jsstring
  hostname :: jsstring
  port :: "nat option"
  pathname :: jsstring
  searchParams :: "(jsstring \<times> jsstring) list"
  hash :: jsstring

definition protocol :: "url \<Rightarrow> jsstring" where
  "protocol u = scheme u @ js '':''"

definition host :: "url \<Rightarrow> jsstring" where
  "host u = hostname u @ (case port u of None \<Rightarrow> [] | Some p \<Rightarrow> js '':'' @ toRadix 10 p)"

text \<open>
  What the signer takes from its environment: the URL parser (\<open>None\<close>: \<open>new URL\<close> throws
  TypeError), the secure random source, the clock in milliseconds, and HMAC-SHA256 (key,
  message, raw digest).
\<close>

record env =
  parseURL :: "jsstring \<Rightarrow> url option"
  randomBytes :: "nat \<Rightarrow> 8 word list"
  dateNow :: int
  hmacSha256 :: "jsstring \<Rightarrow> jsstring \<Rightarrow> 8 word list"

text \<open>\<open>Buffer.toString('hex')\<close> and \<open>digest('base64')\<close> (RFC 4648, standard alphabet,
  padded).\<close>

definition hexByte :: "8 word \<Rightarrow> jsstring" where
  "hexByte b = [digitChar (unat b div 16), digitChar (unat b mod 16)]"

definition toHex :: "8 word list \<Rightarrow> jsstring" where
  "toHex bs = concat (map hexByte bs)"

definition b64char :: "nat \<Rightarrow> codeunit" where
  "b64char n =
     (if n < 26 then of_nat (65 + n)
      else if n < 52 then of_nat (97 + (n - 26))
      else if n < 62 then of_nat (48 + (n - 52))
      else if n = 62 then cu CHR ''+'' else cu CHR ''/'')"

fun base64 :: "8 word list \<Rightarrow> jsstring" where
  "base64 [] = []"
| "base64 [a] =
     [b64char (unat a div 4), b64char (unat a mod 4 * 16), cu CHR ''='', cu CHR ''='']"
| "base64 [a, b] =
     [b64char (unat a div 4), b64char (unat a mod 4 * 16 + unat b div 16),
      b64char (unat b mod 16 * 4), cu CHR ''='']"
| "base64 (a # b # c # bs) =
     [b64char (unat a div 4), b64char (unat a mod 4 * 16 + unat b div 16),
      b64char (unat b mod 16 * 4 + unat c div 64), b64char (unat c mod 64)] @ base64 bs"

section \<open>generateOAuthHeader\<close>

text \<open>
  The method \<open>generateOAuthHeader(url, method, body = null)\<close>, with one definition for
  each local constant of the source; \<open>body\<close> is never read. \<open>oauth_timestamp\<close> holds
  the number itself; it is converted by \<open>ToString\<close> only inside \<open>encodeURIComponent\<close>.
  \<open>Math.floor(Date.now() / 1000)\<close> is the integer division of the clock reading.
  The method token is interpolated as it is passed.
\<close>

definition oauthParams :: "config \<Rightarrow> jsstring \<Rightarrow> int \<Rightarrow> obj" where
  "oauthParams cfg nonce timestamp =
     [(js ''oauth_consumer_key'', consumerKey cfg),
      (js ''oauth_nonce'', JSString nonce),
      (js ''oauth_signature_method'', JSString (js ''HMAC-SHA256'')),
      (js ''oauth_timestamp'', JSNumber timestamp),
      (js ''oauth_token'', tokenId cfg),
      (js ''oauth_version'', JSString (js ''1.0''))]"

definition queryParams :: "url \<Rightarrow> obj" where
  "queryParams urlObj =
     foldl (\<lambda>ob (key, value). assign ob key (JSString value)) [] (searchParams urlObj)"

definition encodePair :: "obj \<Rightarrow> jsstring \<Rightarrow> error + jsstring" where
  "encodePair allParams key =
     bindE (encodeRFC3986 (JSString key)) (\<lambda>k.
     bindE (encodeRFC3986 (getProp allParams key)) (\<lambda>v.
     Inr (k @ js ''='' @ v)))"

definition paramString :: "obj \<Rightarrow> error + jsstring" where
  "paramString allParams =
     bindE (mapE (encodePair allParams) (sort (Object_keys allParams))) (\<lambda>pairs.
     Inr (join (js ''&'') pairs))"

definition baseUrl :: "url \<Rightarrow> jsstring" where
  "baseUrl urlObj = protocol urlObj @ js ''//'' @ host urlObj @ pathname urlObj"

definition baseString :: "jsstring \<Rightarrow> jsstring \<Rightarrow> jsstring \<Rightarrow> error + jsstring" where
  "baseString method burl pstr =
     bindE (encodeRFC3986 (JSString burl)) (\<lambda>u.
     bindE (encodeRFC3986 (JSString pstr)) (\<lambda>p.
     Inr (method @ js ''&'' @ u @ js ''&'' @ p)))"

definition signingKey :: "config \<Rightarrow> error + jsstring" where
  "signingKey cfg =
     bindE (encodeRFC3986 (consumerSecret cfg)) (\<lambda>cs.
     bindE (encodeRFC3986 (tokenSecret cfg)) (\<lambda>ts.
     Inr (cs @ js ''&'' @ ts)))"

definition signature :: "env \<Rightarrow> jsstring \<Rightarrow> jsstring \<Rightarrow> jsstring" where
  "signature e key bstr = base64 (hmacSha256 e key bstr)"

definition headerParts :: "config \<Rightarrow> jsstring \<Rightarrow> jsstring \<Rightarrow> int \<Rightarrow> error + jsstring list" where
  \<open>headerParts cfg nonce sig timestamp =
     bindE (encodeRFC3986 (accountId cfg)) (\<lambda>realm.
     bindE (encodeRFC3986 (consumerKey cfg)) (\<lambda>ck.
     bindE (encodeRFC3986 (JSString nonce)) (\<lambda>n.
     bindE (encodeRFC3986 (JSString sig)) (\<lambda>sg.
     bindE (encodeRFC3986 (JSNumber timestamp)) (\<lambda>ts.
     bindE (encodeRFC3986 (tokenId cfg)) (\<lambda>tk.
     Inr [js ''realm="'' @ realm @ js ''"'',
          js ''oauth_consumer_key="'' @ ck @ js ''"'',
          js ''oauth_nonce="'' @ n @ js ''"'',
          js ''oauth_signature="'' @ sg @ js ''"'',
          js ''oauth_signature_method="HMAC-SHA256"'',
          js ''oauth_timestamp="'' @ ts @ js ''"'',
          js ''oauth_token="'' @ tk @ js ''"'',
          js ''oauth_version="1.0"'']))))))\<close>

definition timestamp :: "env \<Rightarrow> int" where
  "timestamp e = dateNow e div 1000"

definition nonce :: "env \<Rightarrow> jsstring" where
  "nonce e = toHex (randomBytes e 16)"

definition allParams :: "env \<Rightarrow> config \<Rightarrow> url \<Rightarrow> obj" where
  "allParams e cfg urlObj = spread (oauthParams cfg (nonce e) (timestamp e)) (queryParams urlObj)"

definition generateOAuthHeader :: "env \<Rightarrow> config \<Rightarrow> jsstring \<Rightarrow> jsstring \<Rightarrow> error + jsstring" where
  "generateOAuthHeader e cfg u method =
     (case parseURL e u of
        None \<Rightarrow> Inl TypeError
      | Some urlObj \<Rightarrow>
          bindE (paramString (allParams e cfg urlObj)) (\<lambda>pstr.
          bindE (baseString method (baseUrl urlObj) pstr) (\<lambda>bstr.
          bindE (signingKey cfg) (\<lambda>key.
          bindE (headerParts cfg (nonce e) (signature e key bstr) (timestamp e)) (\<lambda>parts.
          Inr (js ''OAuth '' @ join (js '', '') parts))))))"

section \<open>Notions of the specification\<close>

text \<open>
  The canonical parameter string as the specification words it: every name and value is
  percent-encoded, the encoded pairs are sorted by encoded name, then by encoded value,
  and joined as \<open>name=value\<close> with \<open>&\<close>.
\<close>

definition encodeKV :: "jsstring \<times> jsval \<Rightarrow> error + jsstring \<times> jsstring" where
  "encodeKV p =
     bindE (encodeRFC3986 (JSString (fst p))) (\<lambda>k.
     bindE (encodeRFC3986 (snd p)) (\<lambda>v. Inr (k, v)))"

definition renderKV :: "jsstring \<times> jsstring \<Rightarrow> jsstring" where
  "renderKV p = fst p @ js ''='' @ snd p"

definition canonical_by_encoded_key :: "obj \<Rightarrow> error + jsstring" where
  "canonical_by_encoded_key ob =
     bindE (mapE encodeKV ob) (\<lambda>eps. Inr (join (js ''&'') (map renderKV (sort eps))))"

text \<open>The name of a rendered header pair \<open>name="value"\<close>: the text before its first
  \<open>=\<close>.\<close>

definition headerParamName :: "jsstring \<Rightarrow> jsstring" where
  "headerParamName part = takeWhile (\<lambda>c. c \<noteq> cu CHR ''='') part"

text \<open>\<open>typeof v === 'string'\<close>\<close>

fun isString :: "jsval \<Rightarrow> bool" where
  "isString (JSString s) = True"
| "isString v = False"

text \<open>The characters of a lower-case hexadecimal rendering.\<close>

definition isHexDigit :: "codeunit \<Rightarrow> bool" where
  "isHexDigit c \<longleftrightarrow> (0x30 \<le> c \<and> c \<le> 0x39) \<or> (0x61 \<le> c \<and> c \<le> 0x66)"

text \<open>The base64 alphabet of RFC 4648 and the padding character.\<close>

definition isBase64Char :: "codeunit \<Rightarrow> bool" where
  "isBase64Char c \<longleftrightarrow> isAlnum c \<or> c = cu CHR ''+'' \<or> c = cu CHR ''/'' \<or> c = cu CHR ''=''"


section \<open>A test vector\<close>

text \<open>
  The concrete vector of the specification: keys \<open>CK\<close>, \<open>CS\<close>, \<open>TK\<close>, \<open>TS\<close>, realm
  \<open>ACCT1\<close>, and the URL \<open>https://example.com/app.nl?script=1&deploy=1\<close>. The
  environment fixes the random bytes, the clock and a digest, so that the signer can be
  evaluated.
\<close>

definition cfg0 :: config where
  "cfg0 = \<lparr>accountId = JSString (js ''ACCT1''), consumerKey = JSString (js ''CK''),
     consumerSecret = JSString (js ''CS''), tokenId = JSString (js ''TK''),
     tokenSecret = JSString (js ''TS''),
     restletUrl = JSString (js ''https://example.com/app.nl?script=1&deploy=1'')\<rparr>"

definition url0 :: url where
  "url0 = \<lparr>scheme = js ''https'', hostname = js ''example.com'', port = None,
     pathname = js ''/app.nl'',
     searchParams = [(js ''script'', js ''1''), (js ''deploy'', js ''1'')], hash = []\<rparr>"

definition digest0 :: "8 word list" where
  "digest0 = [0x00, 0x10, 0x83, 0x10, 0x51, 0x87, 0x20, 0x92, 0x8B, 0x30, 0xD3, 0x8F,
              0x41, 0x14, 0x93, 0x51, 0x55, 0x97, 0x61, 0x96, 0x9B, 0x71, 0xD7, 0x9F,
              0x82, 0x18, 0xA3, 0x92, 0x59, 0xA7, 0xFB, 0xFF]"

definition env0 :: env where
  "env0 = \<lparr>parseURL = (\<lambda>s. if s = js ''https://example.com/app.nl?script=1&deploy=1''
                            then Some url0 else None),
     randomBytes = (\<lambda>n. take n [0x00, 0x01, 0x23, 0x45, 0x67, 0x89, 0xAB, 0xCD, 0xEF, 0x10,
                                  0x32, 0x54, 0x76, 0x98, 0xBA, 0xDC, 0xFE]),
     dateNow = 1700000000999,
     hmacSha256 = (\<lambda>key msg. digest0)\<rparr>"


text \<open>Two more URLs: one whose query keys hold an escaped character, one whose query
  repeats a protocol parameter.\<close>

definition url1 :: url where
  "url1 = url0\<lparr>searchParams := [(js ''a/b'', js ''1''), (js ''a-b'', js ''2'')]\<rparr>"

definition url2 :: url where
  "url2 = url0\<lparr>searchParams := [(js ''oauth_token'', js ''TK'')]\<rparr>"

section \<open>Percent-encoding is the RFC 3986 encoding of the UTF-8 octets\<close>

lemma special_iff: "c \<in> set (js ''!'()*'') \<longleftrightarrow> unat c \<in> {33, 39, 40, 41, 42}"
  by (auto simp: js_def cu_def word_unat_eq_iff)

lemma hexUpper_unat: "d < 16 \<Longrightarrow> unat (hexUpper d) = (if d < 10 then 48 + d else 55 + d)"
  by (simp add: hexUpper_def unat_of_nat del: of_nat_add)

lemma hexUpper_plain: "d < 16 \<Longrightarrow> replaceSpecial (hexUpper d) = [hexUpper d]"
  by (simp add: replaceSpecial_def special_iff hexUpper_unat)

lemma replaceSpecials_append: "replaceSpecials (xs @ ys) = replaceSpecials xs @ replaceSpecials ys"
  by (simp add: replaceSpecials_def)

lemma replaceSpecials_Nil: "replaceSpecials [] = []"
  by (simp add: replaceSpecials_def)

lemma replaceSpecials_pctOctet: "b < 256 \<Longrightarrow> replaceSpecials (pctOctet b) = pctOctet b"
proof -
  assume b: "b < 256"
  then have "b div 16 < 16" "b mod 16 < 16" by auto
  then have "replaceSpecial (hexUpper (b div 16)) = [hexUpper (b div 16)]"
    "replaceSpecial (hexUpper (b mod 16)) = [hexUpper (b mod 16)]"
    by (simp_all add: hexUpper_plain)
  moreover have "replaceSpecial (cu CHR ''%'') = [cu CHR ''%'']"
    by (simp add: replaceSpecial_def js_def cu_def)
  ultimately show ?thesis
    by (simp add: replaceSpecials_def pctOctet_def)
qed

lemma escaped_octets:
  "\<forall>b\<in>set bs. b < 256 \<and> \<not> unreserved_octet b \<Longrightarrow>
   replaceSpecials (pctOctets bs) = rfc3986_octets bs"
  by (induction bs)
     (simp_all add: pctOctets_def rfc3986_octets_def rfc3986_octet_def replaceSpecials_append
        replaceSpecials_pctOctet replaceSpecials_Nil)

lemma unat_bounds: "unat (c :: codeunit) < 65536"
  using unsigned_less [of c, where 'a = nat] by simp

lemma alnum_unreserved: "isAlnum c \<longleftrightarrow>
    (65 \<le> unat c \<and> unat c \<le> 90) \<or> (97 \<le> unat c \<and> unat c \<le> 122) \<or> (48 \<le> unat c \<and> unat c \<le> 57)"
  by (simp add: isAlnum_def word_le_nat_alt)

lemma mark_iff: "c \<in> set (js ''_-.!~*'()'') \<longleftrightarrow> unat c \<in> {95, 45, 46, 33, 126, 42, 39, 40, 41}"
  by (auto simp: js_def cu_def word_unat_eq_iff)


lemma special_hex:
  "n \<in> {33, 39, 40, 41, 42} \<Longrightarrow> cu CHR ''%'' # toUpperCase (toRadix 16 n) = pctOctet n"
proof -
  assume "n \<in> {33, 39, 40, 41, 42}"
  then have "n = 33 \<or> n = 39 \<or> n = 40 \<or> n = 41 \<or> n = 42" by simp
  then show ?thesis
    by (elim disjE; hypsubst)
       (simp_all add: toRadix.simps toUpperCase_def upperUnit_def digitChar_def pctOctet_def
          hexUpper_def cu_def)
qed

lemma unescaped_unit: "uriUnescaped c \<Longrightarrow> replaceSpecial c = rfc3986_octet (unat c)"
proof -
  assume "uriUnescaped c"
  then consider "isAlnum c" | "unat c \<in> {95, 45, 46, 126}" | "unat c \<in> {33, 39, 40, 41, 42}"
    unfolding uriUnescaped_def mark_iff by auto
  then show ?thesis
  proof cases
    case 1
    then have "unreserved_octet (unat c)" "unat c \<notin> {33, 39, 40, 41, 42}"
      by (auto simp: alnum_unreserved unreserved_octet_def)
    then show ?thesis
      by (simp add: replaceSpecial_def rfc3986_octet_def special_iff del: insert_iff)
  next
    case 2
    then have "unreserved_octet (unat c)" "unat c \<notin> {33, 39, 40, 41, 42}"
      by (auto simp: unreserved_octet_def)
    then show ?thesis
      by (simp add: replaceSpecial_def rfc3986_octet_def special_iff del: insert_iff)
  next
    case 3
    then have s: "c \<in> set (js ''!'()*'')" by (simp add: special_iff)
    from 3 have "\<not> unreserved_octet (unat c)" by (auto simp: unreserved_octet_def)
    moreover from 3 have "cu CHR ''%'' # toUpperCase (toRadix 16 (unat c)) = pctOctet (unat c)"
      by (rule special_hex)
    ultimately show ?thesis using s
      by (simp add: replaceSpecial_def rfc3986_octet_def)
  qed
qed


lemma unescaped_ascii: "uriUnescaped c \<Longrightarrow> unat c < 128 \<and> \<not> isLeadSurrogate c \<and> \<not> isTrailSurrogate c"
  unfolding uriUnescaped_def mark_iff alnum_unreserved isLeadSurrogate_def isTrailSurrogate_def
    word_le_nat_alt
  by auto

lemma unreserved_unescaped: "unreserved_octet (unat c) \<Longrightarrow> uriUnescaped c"
  unfolding uriUnescaped_def mark_iff alnum_unreserved unreserved_octet_def by auto

lemma utf8_escaped:
  "cp < 0x110000 \<Longrightarrow> (cp < 128 \<longrightarrow> \<not> unreserved_octet cp) \<Longrightarrow>
   \<forall>b\<in>set (utf8 cp). b < 256 \<and> \<not> unreserved_octet b"
  by (auto simp: utf8_def unreserved_octet_def)

lemma surrogatePair_range:
  "isLeadSurrogate c \<Longrightarrow> isTrailSurrogate d \<Longrightarrow>
   0x10000 \<le> surrogatePair c d \<and> surrogatePair c d < 0x110000"
  using unat_bounds [of c] unat_bounds [of d]
  by (auto simp: surrogatePair_def isLeadSurrogate_def isTrailSurrogate_def word_le_nat_alt)

lemma escaped_unit:
  "\<not> uriUnescaped c \<Longrightarrow>
   replaceSpecials (pctOctets (utf8 (unat c))) = rfc3986_octets (utf8 (unat c))"
  using unat_bounds [of c] unreserved_unescaped [of c]
  by (intro escaped_octets utf8_escaped) auto

lemma escaped_pair:
  "isLeadSurrogate c \<Longrightarrow> isTrailSurrogate d \<Longrightarrow>
   replaceSpecials (pctOctets (utf8 (surrogatePair c d))) = rfc3986_octets (utf8 (surrogatePair c d))"
  using surrogatePair_range [of c d]
  by (intro escaped_octets utf8_escaped) auto

lemma Encode_codePoints:
  "(case Encode s of Inl e \<Rightarrow> Inl e | Inr r \<Rightarrow> Inr (replaceSpecials r)) =
   (case codePoints s of None \<Rightarrow> Inl URIError
    | Some cps \<Rightarrow> Inr (rfc3986_octets (concat (map utf8 cps))))"
proof (induction s rule: Encode.induct)
  case 1
  show ?case by (simp add: replaceSpecials_def rfc3986_octets_def)
next
  case (2 c cs)
  show ?case
  proof (cases "uriUnescaped c")
    case True
    with 2(1) unescaped_ascii [of c] unescaped_unit [of c] show ?thesis
      by (auto simp: prependE_def utf8_def replaceSpecials_def rfc3986_octets_def
            split: sum.splits option.splits)
  next
    case False
    show ?thesis
    proof (cases "\<not> isLeadSurrogate c \<and> \<not> isTrailSurrogate c")
      case True
      with False 2(2) escaped_unit [of c] show ?thesis
        by (auto simp: prependE_def replaceSpecials_append rfc3986_octets_def
              split: sum.splits option.splits)
    next
      case ns: False
      show ?thesis
      proof (cases "isTrailSurrogate c")
        case True
        with False show ?thesis by simp
      next
        case nt: False
        with ns have lead: "isLeadSurrogate c" by simp
        show ?thesis
        proof (cases cs)
          case Nil
          with False ns nt show ?thesis by simp
        next
          case (Cons d ds)
          show ?thesis
          proof (cases "isTrailSurrogate d")
            case True
            with False ns nt Cons 2(3) escaped_pair [OF lead True] show ?thesis
              by (auto simp: prependE_def replaceSpecials_append rfc3986_octets_def
                    split: sum.splits option.splits)
          next
            case False
            with \<open>\<not> uriUnescaped c\<close> ns nt Cons show ?thesis by simp
          qed
        qed
      qed
    qed
  qed
qed

text \<open>
  Claim C1. For every input string, \<open>encodeRFC3986\<close> is the RFC 3986 encoding of the
  string's UTF-8 octets: an unreserved octet (letter, digit, \<open>-\<close>, \<open>.\<close>, \<open>_\<close>, \<open>~\<close>) is
  copied, and every other octet, among them \<open>! ' ( ) *\<close>, space, \<open>& = / : ?\<close>, becomes
  \<open>%XX\<close> with upper-case hexadecimal digits. A string with an unpaired surrogate has no
  UTF-8 octets, and the function raises URIError.
\<close>

theorem encodeRFC3986_rfc3986:
  "encodeRFC3986 (JSString s) =
     (case utf8_octets s of None \<Rightarrow> Inl URIError | Some bs \<Rightarrow> Inr (rfc3986_octets bs))"
  using Encode_codePoints [of s]
  by (simp add: encodeRFC3986_def encodeURIComponent_def utf8_octets_def split: option.splits)

theorem encodeRFC3986_rfc3986_witness:
  "encodeRFC3986 (JSString (js ''Az09-._~!'()* &=/:?'')) =
     Inr (js ''Az09-._~%21%27%28%29%2A%20%26%3D%2F%3A%3F'') \<and>
   encodeRFC3986 (JSString [0xE9, 0x20AC, 0xD83D, 0xDE00]) =
     Inr (js ''%C3%A9%E2%82%AC%F0%9F%98%80'') \<and>
   encodeRFC3986 (JSString [0x61, 0xD83D]) = Inl URIError"
  using encodeRFC3986_rfc3986 [of "js ''Az09-._~!'()* &=/:?''"]
    encodeRFC3986_rfc3986 [of "[0xE9, 0x20AC, 0xD83D, 0xDE00]"]
    encodeRFC3986_rfc3986 [of "[0x61, 0xD83D]"]
  by (simp add: utf8_octets_def rfc3986_octets_def rfc3986_octet_def unreserved_octet_def
        utf8_def pctOctet_def hexUpper_def js_def cu_def isLeadSurrogate_def isTrailSurrogate_def
        surrogatePair_def)

section \<open>Enumeration order of keys\<close>

lemma mset_Object_keys: "mset (Object_keys ob) = mset (map fst ob)"
  by (simp add: Object_keys_def)

lemma set_Object_keys: "set (Object_keys ob) = set (map fst ob)"
  using mset_Object_keys [of ob] by (metis set_mset_mset)

lemma distinct_Object_keys: "distinct (Object_keys ob) = distinct (map fst ob)"
  using mset_Object_keys [of ob] by (rule mset_eq_imp_distinct_iff)

lemma sort_Object_keys: "sort (Object_keys ob) = sort (map fst ob)"
proof (rule properties_for_sort)
  show "mset (sort (map fst ob)) = mset (Object_keys ob)"
    by (simp add: mset_Object_keys)
  show "sorted (sort (map fst ob))"
    by simp
qed

lemma Object_keys_example:
  "Object_keys [(js ''b'', JSUndefined), (js ''10'', JSUndefined), (js ''2'', JSUndefined),
                (js ''01'', JSUndefined)] =
     [js ''2'', js ''10'', js ''b'', js ''01'']"
  by (simp add: Object_keys_def isArrayIndex_def isDigit_def decimalValue_def js_def cu_def)

section \<open>Evaluation and the error monad\<close>

lemmas enc_eval = js_def cu_def uriUnescaped_def isAlnum_def isLeadSurrogate_def
  isTrailSurrogate_def utf8_def pctOctet_def pctOctets_def hexUpper_def prependE_def
  encodeURIComponent_def replaceSpecial_def replaceSpecials_def encodeRFC3986_def
  toUpperCase_def upperUnit_def toRadix.simps digitChar_def surrogatePair_def

lemmas sign_eval = cfg0_def url0_def env0_def digest0_def allParams_def nonce_def timestamp_def
  toHex_def hexByte_def oauthParams_def queryParams_def assign_def spread_def paramString_def
  sort_Object_keys encodePair_def getProp_def bindE_def baseUrl_def protocol_def host_def
  baseString_def signingKey_def signature_def b64char_def headerParts_def

lemma bindE_Inr [simp]: "bindE (Inr x) f = f x"
  by (simp add: bindE_def)

lemma bindE_Inl [simp]: "bindE (Inl e) f = Inl e"
  by (simp add: bindE_def)

lemma bindE_eq_Inr: "bindE r f = Inr y \<longleftrightarrow> (\<exists>x. r = Inr x \<and> f x = Inr y)"
  by (cases r) simp_all

section \<open>The constructor\<close>

lemma missing_fields:
  "missing cfg =
     (if truthy (accountId cfg) then [] else [js ''accountId'']) @
     (if truthy (consumerKey cfg) then [] else [js ''consumerKey'']) @
     (if truthy (consumerSecret cfg) then [] else [js ''consumerSecret'']) @
     (if truthy (tokenId cfg) then [] else [js ''tokenId'']) @
     (if truthy (tokenSecret cfg) then [] else [js ''tokenSecret'']) @
     (if truthy (restletUrl cfg) then [] else [js ''restletUrl''])"
  by (simp add: missing_def required_def)

lemma constructor_accepts:
  "NetSuiteDownloader cfg = Inr d \<longleftrightarrow>
     d = cfg \<and> truthy (accountId cfg) \<and> truthy (consumerKey cfg) \<and> truthy (consumerSecret cfg) \<and>
     truthy (tokenId cfg) \<and> truthy (tokenSecret cfg) \<and> truthy (restletUrl cfg)"
  by (auto simp: NetSuiteDownloader_def validateConfig_def missing_fields split: if_splits)

text \<open>
  Claim C6. When any of the six required fields (accountId, consumerKey, consumerSecret,
  tokenId, tokenSecret, restletUrl) is missing or empty, the constructor fails with the
  error \<open>Missing required configuration: \<close> followed by the names of exactly those
  fields, and constructing and then signing fails with that error whatever the
  environment is: no percent-encoding and no HMAC is computed. An empty tokenSecret is
  such a case.
\<close>

theorem constructor_rejects_missing_fields:
  assumes "\<not> truthy (accountId cfg) \<or> \<not> truthy (consumerKey cfg) \<or> \<not> truthy (consumerSecret cfg) \<or>
           \<not> truthy (tokenId cfg) \<or> \<not> truthy (tokenSecret cfg) \<or> \<not> truthy (restletUrl cfg)"
  shows "missing cfg =
           (if truthy (accountId cfg) then [] else [js ''accountId'']) @
           (if truthy (consumerKey cfg) then [] else [js ''consumerKey'']) @
           (if truthy (consumerSecret cfg) then [] else [js ''consumerSecret'']) @
           (if truthy (tokenId cfg) then [] else [js ''tokenId'']) @
           (if truthy (tokenSecret cfg) then [] else [js ''tokenSecret'']) @
           (if truthy (restletUrl cfg) then [] else [js ''restletUrl'']) \<and>
         missing cfg \<noteq> [] \<and>
         NetSuiteDownloader cfg =
           Inl (Error (js ''Missing required configuration: '' @ join (js '', '') (missing cfg))) \<and>
         bindE (NetSuiteDownloader cfg) (\<lambda>d. generateOAuthHeader e d u method) =
           Inl (Error (js ''Missing required configuration: '' @ join (js '', '') (missing cfg)))"
proof -
  have m: "missing cfg \<noteq> []"
    using assms by (auto simp: missing_fields)
  then have "NetSuiteDownloader cfg =
      Inl (Error (js ''Missing required configuration: '' @ join (js '', '') (missing cfg)))"
    by (simp add: NetSuiteDownloader_def validateConfig_def)
  with m show ?thesis
    by (simp add: missing_fields [symmetric])
qed

theorem constructor_rejects_missing_fields_witness:
  "NetSuiteDownloader (cfg0\<lparr>tokenSecret := JSString []\<rparr>) =
     Inl (Error (js ''Missing required configuration: tokenSecret'')) \<and>
   bindE (NetSuiteDownloader (cfg0\<lparr>tokenSecret := JSString []\<rparr>))
      (\<lambda>d. generateOAuthHeader env0 d (js ''https://example.com/app.nl?script=1&deploy=1'') (js ''POST'')) =
     Inl (Error (js ''Missing required configuration: tokenSecret'')) \<and>
   NetSuiteDownloader (cfg0\<lparr>accountId := JSUndefined, tokenSecret := JSUndefined\<rparr>) =
     Inl (Error (js ''Missing required configuration: accountId, tokenSecret''))"
  using constructor_rejects_missing_fields [of "cfg0\<lparr>tokenSecret := JSString []\<rparr>" env0
      "js ''https://example.com/app.nl?script=1&deploy=1''" "js ''POST''"]
    constructor_rejects_missing_fields [of "cfg0\<lparr>accountId := JSUndefined, tokenSecret := JSUndefined\<rparr>" env0
      "js ''https://example.com/app.nl?script=1&deploy=1''" "js ''POST''"]
  by (simp add: cfg0_def js_def)

section \<open>The shape of a successful call\<close>

lemma headerParts_Inr_iff:
  \<open>headerParts cfg n sig t = Inr parts \<longleftrightarrow>
   (\<exists>realm ck n' sg ts tk.
      encodeRFC3986 (accountId cfg) = Inr realm \<and> encodeRFC3986 (consumerKey cfg) = Inr ck \<and>
      encodeRFC3986 (JSString n) = Inr n' \<and> encodeRFC3986 (JSString sig) = Inr sg \<and>
      encodeRFC3986 (JSNumber t) = Inr ts \<and> encodeRFC3986 (tokenId cfg) = Inr tk \<and>
      parts = [js ''realm="'' @ realm @ js ''"'',
               js ''oauth_consumer_key="'' @ ck @ js ''"'',
               js ''oauth_nonce="'' @ n' @ js ''"'',
               js ''oauth_signature="'' @ sg @ js ''"'',
               js ''oauth_signature_method="HMAC-SHA256"'',
               js ''oauth_timestamp="'' @ ts @ js ''"'',
               js ''oauth_token="'' @ tk @ js ''"'',
               js ''oauth_version="1.0"''])\<close>
  unfolding headerParts_def bindE_eq_Inr by auto

lemma generateOAuthHeader_Inr_iff:
  "generateOAuthHeader e cfg u method = Inr h \<longleftrightarrow>
   (\<exists>urlObj pstr bstr key parts.
      parseURL e u = Some urlObj \<and>
      paramString (allParams e cfg urlObj) = Inr pstr \<and>
      baseString method (baseUrl urlObj) pstr = Inr bstr \<and>
      signingKey cfg = Inr key \<and>
      headerParts cfg (nonce e) (signature e key bstr) (timestamp e) = Inr parts \<and>
      h = js ''OAuth '' @ join (js '', '') parts)"
  unfolding generateOAuthHeader_def
  by (cases "parseURL e u") (auto simp: bindE_eq_Inr)

lemma js_append: "js (a @ b) = js a @ js b"
  by (simp add: js_def)

lemma header_join:
  \<open>js ''OAuth '' @ join (js '', '')
      [js ''realm="'' @ realm @ js ''"'',
       js ''oauth_consumer_key="'' @ ck @ js ''"'',
       js ''oauth_nonce="'' @ n @ js ''"'',
       js ''oauth_signature="'' @ sg @ js ''"'',
       js ''oauth_signature_method="HMAC-SHA256"'',
       js ''oauth_timestamp="'' @ ts @ js ''"'',
       js ''oauth_token="'' @ tk @ js ''"'',
       js ''oauth_version="1.0"''] =
    js ''OAuth realm="'' @ realm @ js ''", oauth_consumer_key="'' @ ck @
    js ''", oauth_nonce="'' @ n @ js ''", oauth_signature="'' @ sg @
    js ''", oauth_signature_method="HMAC-SHA256", oauth_timestamp="'' @ ts @
    js ''", oauth_token="'' @ tk @ js ''", oauth_version="1.0"''\<close>
  by (simp add: js_def)

text \<open>
  Claim C5. A signing call that returns, returns exactly \<open>OAuth \<close> followed by the pairs
  realm, oauth_consumer_key, oauth_nonce, oauth_signature,
  oauth_signature_method="HMAC-SHA256", oauth_timestamp, oauth_token, oauth_version="1.0"
  in that order, each value percent-encoded by \<open>encodeRFC3986\<close> and written
  \<open>name="value"\<close>, separated by a comma and a space; and it returns whenever the URL
  parses and every encoding succeeds.
\<close>

theorem authorization_header_format:
  \<open>generateOAuthHeader e cfg u method = Inr h \<longleftrightarrow>
   (\<exists>urlObj pstr bstr key realm ck n sg ts tk.
      parseURL e u = Some urlObj \<and>
      paramString (allParams e cfg urlObj) = Inr pstr \<and>
      baseString method (baseUrl urlObj) pstr = Inr bstr \<and>
      signingKey cfg = Inr key \<and>
      encodeRFC3986 (accountId cfg) = Inr realm \<and>
      encodeRFC3986 (consumerKey cfg) = Inr ck \<and>
      encodeRFC3986 (JSString (nonce e)) = Inr n \<and>
      encodeRFC3986 (JSString (signature e key bstr)) = Inr sg \<and>
      encodeRFC3986 (JSNumber (timestamp e)) = Inr ts \<and>
      encodeRFC3986 (tokenId cfg) = Inr tk \<and>
      h = js ''OAuth realm="'' @ realm @ js ''", oauth_consumer_key="'' @ ck @
          js ''", oauth_nonce="'' @ n @ js ''", oauth_signature="'' @ sg @
          js ''", oauth_signature_method="HMAC-SHA256", oauth_timestamp="'' @ ts @
          js ''", oauth_token="'' @ tk @ js ''", oauth_version="1.0"'')\<close>
proof
  assume "generateOAuthHeader e cfg u method = Inr h"
  then obtain urlObj pstr bstr key parts where
    a: "parseURL e u = Some urlObj" "paramString (allParams e cfg urlObj) = Inr pstr"
      "baseString method (baseUrl urlObj) pstr = Inr bstr" "signingKey cfg = Inr key" and
    p: "headerParts cfg (nonce e) (signature e key bstr) (timestamp e) = Inr parts" and
    h: "h = js ''OAuth '' @ join (js '', '') parts"
    unfolding generateOAuthHeader_Inr_iff by blast
  from p obtain realm ck n sg ts tk where
    b: "encodeRFC3986 (accountId cfg) = Inr realm" "encodeRFC3986 (consumerKey cfg) = Inr ck"
      "encodeRFC3986 (JSString (nonce e)) = Inr n"
      "encodeRFC3986 (JSString (signature e key bstr)) = Inr sg"
      "encodeRFC3986 (JSNumber (timestamp e)) = Inr ts" "encodeRFC3986 (tokenId cfg) = Inr tk" and
    parts: \<open>parts = [js ''realm="'' @ realm @ js ''"'',
               js ''oauth_consumer_key="'' @ ck @ js ''"'',
               js ''oauth_nonce="'' @ n @ js ''"'',
               js ''oauth_signature="'' @ sg @ js ''"'',
               js ''oauth_signature_method="HMAC-SHA256"'',
               js ''oauth_timestamp="'' @ ts @ js ''"'',
               js ''oauth_token="'' @ tk @ js ''"'',
               js ''oauth_version="1.0"'']\<close>
    unfolding headerParts_Inr_iff by blast
  from h have \<open>h = js ''OAuth realm="'' @ realm @ js ''", oauth_consumer_key="'' @ ck @
          js ''", oauth_nonce="'' @ n @ js ''", oauth_signature="'' @ sg @
          js ''", oauth_signature_method="HMAC-SHA256", oauth_timestamp="'' @ ts @
          js ''", oauth_token="'' @ tk @ js ''", oauth_version="1.0"''\<close>
    unfolding parts by (simp only: header_join)
  with a b show \<open>\<exists>urlObj pstr bstr key realm ck n sg ts tk.
      parseURL e u = Some urlObj \<and>
      paramString (allParams e cfg urlObj) = Inr pstr \<and>
      baseString method (baseUrl urlObj) pstr = Inr bstr \<and>
      signingKey cfg = Inr key \<and>
      encodeRFC3986 (accountId cfg) = Inr realm \<and>
      encodeRFC3986 (consumerKey cfg) = Inr ck \<and>
      encodeRFC3986 (JSString (nonce e)) = Inr n \<and>
      encodeRFC3986 (JSString (signature e key bstr)) = Inr sg \<and>
      encodeRFC3986 (JSNumber (timestamp e)) = Inr ts \<and>
      encodeRFC3986 (tokenId cfg) = Inr tk \<and>
      h = js ''OAuth realm="'' @ realm @ js ''", oauth_consumer_key="'' @ ck @
          js ''", oauth_nonce="'' @ n @ js ''", oauth_signature="'' @ sg @
          js ''", oauth_signature_method="HMAC-SHA256", oauth_timestamp="'' @ ts @
          js ''", oauth_token="'' @ tk @ js ''", oauth_version="1.0"''\<close>
    by (intro exI conjI)
next
  assume \<open>\<exists>urlObj pstr bstr key realm ck n sg ts tk.
      parseURL e u = Some urlObj \<and>
      paramString (allParams e cfg urlObj) = Inr pstr \<and>
      baseString method (baseUrl urlObj) pstr = Inr bstr \<and>
      signingKey cfg = Inr key \<and>
      encodeRFC3986 (accountId cfg) = Inr realm \<and>
      encodeRFC3986 (consumerKey cfg) = Inr ck \<and>
      encodeRFC3986 (JSString (nonce e)) = Inr n \<and>
      encodeRFC3986 (JSString (signature e key bstr)) = Inr sg \<and>
      encodeRFC3986 (JSNumber (timestamp e)) = Inr ts \<and>
      encodeRFC3986 (tokenId cfg) = Inr tk \<and>
      h = js ''OAuth realm="'' @ realm @ js ''", oauth_consumer_key="'' @ ck @
          js ''", oauth_nonce="'' @ n @ js ''", oauth_signature="'' @ sg @
          js ''", oauth_signature_method="HMAC-SHA256", oauth_timestamp="'' @ ts @
          js ''", oauth_token="'' @ tk @ js ''", oauth_version="1.0"''\<close>
  then obtain urlObj pstr bstr key realm ck n sg ts tk where
    a: "parseURL e u = Some urlObj" "paramString (allParams e cfg urlObj) = Inr pstr"
      "baseString method (baseUrl urlObj) pstr = Inr bstr" "signingKey cfg = Inr key" and
    b: "encodeRFC3986 (accountId cfg) = Inr realm" "encodeRFC3986 (consumerKey cfg) = Inr ck"
      "encodeRFC3986 (JSString (nonce e)) = Inr n"
      "encodeRFC3986 (JSString (signature e key bstr)) = Inr sg"
      "encodeRFC3986 (JSNumber (timestamp e)) = Inr ts" "encodeRFC3986 (tokenId cfg) = Inr tk" and
    h: \<open>h = js ''OAuth realm="'' @ realm @ js ''", oauth_consumer_key="'' @ ck @
          js ''", oauth_nonce="'' @ n @ js ''", oauth_signature="'' @ sg @
          js ''", oauth_signature_method="HMAC-SHA256", oauth_timestamp="'' @ ts @
          js ''", oauth_token="'' @ tk @ js ''", oauth_version="1.0"''\<close>
    by blast
  have \<open>headerParts cfg (nonce e) (signature e key bstr) (timestamp e) =
      Inr [js ''realm="'' @ realm @ js ''"'',
               js ''oauth_consumer_key="'' @ ck @ js ''"'',
               js ''oauth_nonce="'' @ n @ js ''"'',
               js ''oauth_signature="'' @ sg @ js ''"'',
               js ''oauth_signature_method="HMAC-SHA256"'',
               js ''oauth_timestamp="'' @ ts @ js ''"'',
               js ''oauth_token="'' @ tk @ js ''"'',
               js ''oauth_version="1.0"'']\<close>
    by (simp add: headerParts_def b)
  with a h show "generateOAuthHeader e cfg u method = Inr h"
    by (simp add: generateOAuthHeader_def header_join [symmetric])
qed

section \<open>The test vector, evaluated\<close>

lemma vec_parse: "parseURL env0 (js ''https://example.com/app.nl?script=1&deploy=1'') = Some url0"
  by (simp add: env0_def)

lemma vec_paramString:
  "paramString (allParams env0 cfg0 url0) =
     Inr (js ''deploy=1&oauth_consumer_key=CK&oauth_nonce=000123456789abcdef1032547698badc&oauth_signature_method=HMAC-SHA256&oauth_timestamp=1700000000&oauth_token=TK&oauth_version=1.0&script=1'')"
  by (simp add: enc_eval sign_eval)

lemma vec_baseString:
  "baseString (js ''POST'') (baseUrl url0)
     (js ''deploy=1&oauth_consumer_key=CK&oauth_nonce=000123456789abcdef1032547698badc&oauth_signature_method=HMAC-SHA256&oauth_timestamp=1700000000&oauth_token=TK&oauth_version=1.0&script=1'') =
     Inr (js ''POST&https%3A%2F%2Fexample.com%2Fapp.nl&deploy%3D1%26oauth_consumer_key%3DCK%26oauth_nonce%3D000123456789abcdef1032547698badc%26oauth_signature_method%3DHMAC-SHA256%26oauth_timestamp%3D1700000000%26oauth_token%3DTK%26oauth_version%3D1.0%26script%3D1'')"
  by (simp add: enc_eval sign_eval)

lemma vec_signingKey: "signingKey cfg0 = Inr (js ''CS&TS'')"
  by (simp add: enc_eval sign_eval)

lemma vec_fields:
  "encodeRFC3986 (accountId cfg0) = Inr (js ''ACCT1'')"
  "encodeRFC3986 (consumerKey cfg0) = Inr (js ''CK'')"
  "encodeRFC3986 (tokenId cfg0) = Inr (js ''TK'')"
  "encodeRFC3986 (consumerSecret cfg0) = Inr (js ''CS'')"
  "encodeRFC3986 (tokenSecret cfg0) = Inr (js ''TS'')"
  by (simp_all add: enc_eval cfg0_def)

lemma vec_nonce: "encodeRFC3986 (JSString (nonce env0)) = Inr (js ''000123456789abcdef1032547698badc'')"
  by (simp add: enc_eval sign_eval)

lemma vec_signature:
  "encodeRFC3986 (JSString (signature env0 (js ''CS&TS'')
     (js ''POST&https%3A%2F%2Fexample.com%2Fapp.nl&deploy%3D1%26oauth_consumer_key%3DCK%26oauth_nonce%3D000123456789abcdef1032547698badc%26oauth_signature_method%3DHMAC-SHA256%26oauth_timestamp%3D1700000000%26oauth_token%3DTK%26oauth_version%3D1.0%26script%3D1''))) =
     Inr (js ''ABCDEFGHIJKLMNOPQRSTUVWXYZabcdefghijklmn%2B%2F8%3D'')"
  by (simp add: enc_eval sign_eval)

lemma vec_timestamp: "encodeRFC3986 (JSNumber (timestamp env0)) = Inr (js ''1700000000'')"
  by (simp add: enc_eval sign_eval)

lemma vec_header:
  \<open>generateOAuthHeader env0 cfg0 (js ''https://example.com/app.nl?script=1&deploy=1'') (js ''POST'') =
     Inr (js ''OAuth realm="ACCT1", oauth_consumer_key="CK", oauth_nonce="000123456789abcdef1032547698badc", oauth_signature="ABCDEFGHIJKLMNOPQRSTUVWXYZabcdefghijklmn%2B%2F8%3D", oauth_signature_method="HMAC-SHA256", oauth_timestamp="1700000000", oauth_token="TK", oauth_version="1.0"'')\<close>
  by (simp only: generateOAuthHeader_def headerParts_def vec_parse vec_paramString vec_baseString
        vec_signingKey vec_fields vec_nonce vec_signature vec_timestamp bindE_Inr option.case)
     (simp add: js_def)

theorem authorization_header_format_witness:
  \<open>generateOAuthHeader env0 cfg0 (js ''https://example.com/app.nl?script=1&deploy=1'') (js ''POST'') =
     Inr (js ''OAuth realm="ACCT1", oauth_consumer_key="CK", oauth_nonce="000123456789abcdef1032547698badc", oauth_signature="ABCDEFGHIJKLMNOPQRSTUVWXYZabcdefghijklmn%2B%2F8%3D", oauth_signature_method="HMAC-SHA256", oauth_timestamp="1700000000", oauth_token="TK", oauth_version="1.0"'')\<close>
  by (rule iffD2 [OF authorization_header_format])
     (intro exI conjI, rule vec_parse, rule vec_paramString, rule vec_baseString,
      rule vec_signingKey, rule vec_fields(1), rule vec_fields(2), rule vec_nonce,
      rule vec_signature, rule vec_timestamp, rule vec_fields(3), simp add: js_def)

section \<open>Order of the header pairs\<close>

lemma headerParts_names:
  assumes "headerParts cfg n sg t = Inr parts"
  shows "map headerParamName parts =
           [js ''realm'', js ''oauth_consumer_key'', js ''oauth_nonce'', js ''oauth_signature'',
            js ''oauth_signature_method'', js ''oauth_timestamp'', js ''oauth_token'',
            js ''oauth_version'']"
  using assms unfolding headerParts_Inr_iff
  by (auto simp: headerParamName_def js_def cu_def)

lemma oauth_names_sorted:
  "sorted [js ''oauth_consumer_key'', js ''oauth_nonce'', js ''oauth_signature'',
           js ''oauth_signature_method'', js ''oauth_timestamp'', js ''oauth_token'',
           js ''oauth_version'']"
  by (simp add: js_def cu_def)

lemma realm_after_oauth: "js ''oauth_consumer_key'' < js ''realm''"
  by (simp add: js_def cu_def)

text \<open>
  Claim C7, as stated, fails: the pairs are not in alphabetical order of their names,
  since \<open>realm\<close> is rendered first although it sorts after every \<open>oauth_\<close> name.
\<close>

theorem header_order_counterexample:
  "(case headerParts cfg0 (nonce env0) (js ''c2ln'') (timestamp env0) of
      Inl err \<Rightarrow> []
    | Inr parts \<Rightarrow> map headerParamName parts) =
     [js ''realm'', js ''oauth_consumer_key'', js ''oauth_nonce'', js ''oauth_signature'',
      js ''oauth_signature_method'', js ''oauth_timestamp'', js ''oauth_token'',
      js ''oauth_version''] \<and>
   \<not> sorted [js ''realm'', js ''oauth_consumer_key'', js ''oauth_nonce'', js ''oauth_signature'',
      js ''oauth_signature_method'', js ''oauth_timestamp'', js ''oauth_token'',
      js ''oauth_version'']"
proof -
  have "\<exists>parts. headerParts cfg0 (nonce env0) (js ''c2ln'') (timestamp env0) = Inr parts"
    by (simp add: enc_eval sign_eval)
  then obtain parts where p: "headerParts cfg0 (nonce env0) (js ''c2ln'') (timestamp env0) = Inr parts"
    by blast
  have "\<not> js ''realm'' \<le> js ''oauth_consumer_key''"
    using realm_after_oauth by simp
  then show ?thesis
    using headerParts_names [OF p] p by simp
qed

text \<open>
  Claim C7, amended. The pairs are rendered in a fixed order: \<open>realm\<close> first, then the
  seven \<open>oauth_\<close> pairs in alphabetical order of their names.
\<close>

theorem header_order:
  assumes "headerParts cfg n sg t = Inr parts"
  shows "map headerParamName parts =
           [js ''realm'', js ''oauth_consumer_key'', js ''oauth_nonce'', js ''oauth_signature'',
            js ''oauth_signature_method'', js ''oauth_timestamp'', js ''oauth_token'',
            js ''oauth_version''] \<and>
         hd (map headerParamName parts) = js ''realm'' \<and>
         sorted (tl (map headerParamName parts))"
  using headerParts_names [OF assms] oauth_names_sorted by simp

theorem header_order_witness:
  \<open>headerParts cfg0 (js ''6e'') (js ''c2ln'') 17 =
     Inr [js ''realm="ACCT1"'', js ''oauth_consumer_key="CK"'', js ''oauth_nonce="6e"'',
          js ''oauth_signature="c2ln"'', js ''oauth_signature_method="HMAC-SHA256"'',
          js ''oauth_timestamp="17"'', js ''oauth_token="TK"'', js ''oauth_version="1.0"''] \<and>
   sorted (tl (map headerParamName
     [js ''realm="ACCT1"'', js ''oauth_consumer_key="CK"'', js ''oauth_nonce="6e"'',
      js ''oauth_signature="c2ln"'', js ''oauth_signature_method="HMAC-SHA256"'',
      js ''oauth_timestamp="17"'', js ''oauth_token="TK"'', js ''oauth_version="1.0"'']))\<close>
proof -
  have p: \<open>headerParts cfg0 (js ''6e'') (js ''c2ln'') 17 =
     Inr [js ''realm="ACCT1"'', js ''oauth_consumer_key="CK"'', js ''oauth_nonce="6e"'',
          js ''oauth_signature="c2ln"'', js ''oauth_signature_method="HMAC-SHA256"'',
          js ''oauth_timestamp="17"'', js ''oauth_token="TK"'', js ''oauth_version="1.0"'']\<close>
    by (simp add: enc_eval sign_eval)
  show ?thesis
    by (rule conjI [OF p conjunct2 [OF conjunct2 [OF header_order [OF p]]]])
qed

section \<open>The signature base string\<close>

text \<open>
  Claim C3, as stated, fails: the method token is copied as it is passed, not
  upper-cased.
\<close>

theorem base_string_counterexample:
  "baseString (js ''post'') (baseUrl url0) (js ''a=1'') =
     Inr (js ''post&https%3A%2F%2Fexample.com%2Fapp.nl&a%3D1'') \<and>
   toUpperCase (js ''post'') = js ''POST'' \<and>
   baseString (js ''post'') (baseUrl url0) (js ''a=1'') \<noteq>
     Inr (toUpperCase (js ''post'') @ js ''&https%3A%2F%2Fexample.com%2Fapp.nl&a%3D1'')"
  by (simp add: enc_eval sign_eval)

text \<open>
  Claim C3, amended. The signature base string is the method token as passed, then \<open>&\<close>,
  then the percent-encoding of the base URL (scheme, \<open>://\<close>, host with a non-default
  port, path; neither query nor fragment), then \<open>&\<close>, then the percent-encoding of the
  parameter string, both by \<open>encodeRFC3986\<close>.
\<close>

theorem base_string_form:
  "(baseString method (baseUrl urlObj) pstr = Inr b \<longleftrightarrow>
      (\<exists>u p. encodeRFC3986 (JSString (scheme urlObj @ js ''://'' @ host urlObj @ pathname urlObj)) = Inr u \<and>
             encodeRFC3986 (JSString pstr) = Inr p \<and>
             b = method @ js ''&'' @ u @ js ''&'' @ p)) \<and>
   baseUrl (urlObj\<lparr>searchParams := q, hash := f\<rparr>) = baseUrl urlObj"
proof -
  have "baseUrl urlObj = scheme urlObj @ js ''://'' @ host urlObj @ pathname urlObj"
    by (simp add: baseUrl_def protocol_def js_def)
  moreover have "baseUrl (urlObj\<lparr>searchParams := q, hash := f\<rparr>) = baseUrl urlObj"
    by (simp add: baseUrl_def protocol_def host_def)
  ultimately show ?thesis
    by (auto simp: baseString_def bindE_eq_Inr)
qed

theorem base_string_form_witness:
  "baseString (js ''POST'') (baseUrl (url0\<lparr>port := Some 8443, hash := js ''#top''\<rparr>)) (js ''a=1'') =
     Inr (js ''POST&https%3A%2F%2Fexample.com%3A8443%2Fapp.nl&a%3D1'')"
proof -
  let ?u = "url0\<lparr>port := Some 8443, hash := js ''#top''\<rparr>"
  have 1: "encodeRFC3986 (JSString (scheme ?u @ js ''://'' @ host ?u @ pathname ?u)) =
      Inr (js ''https%3A%2F%2Fexample.com%3A8443%2Fapp.nl'')"
    by (simp add: enc_eval sign_eval)
  have 2: "encodeRFC3986 (JSString (js ''a=1'')) = Inr (js ''a%3D1'')"
    by (simp add: enc_eval)
  show ?thesis
    by (rule iffD2 [OF conjunct1 [OF base_string_form]])
       (intro exI conjI, rule 1, rule 2, simp add: js_def)
qed

section \<open>The signing key and the signature\<close>

lemma toRadix_nonempty: "toRadix b n \<noteq> []"
  by (subst toRadix.simps) simp

lemma ToString_nonempty: "truthy v \<Longrightarrow> ToString v \<noteq> []"
  by (cases v) (simp_all add: toRadix_nonempty)

lemma pctOctets_utf8_nonempty: "pctOctets (utf8 cp) \<noteq> []"
  by (simp add: pctOctets_def utf8_def pctOctet_def)

lemma Encode_nonempty: "Encode s = Inr r \<Longrightarrow> s \<noteq> [] \<Longrightarrow> r \<noteq> []"
  using pctOctets_utf8_nonempty
  by (cases s) (auto simp: prependE_def split: if_splits sum.splits list.splits)

lemma replaceSpecials_nonempty: "r \<noteq> [] \<Longrightarrow> replaceSpecials r \<noteq> []"
  by (cases r) (simp_all add: replaceSpecials_def replaceSpecial_def)

lemma encodeRFC3986_nonempty: "encodeRFC3986 v = Inr r \<Longrightarrow> truthy v \<Longrightarrow> r \<noteq> []"
  using Encode_nonempty [of "ToString v"] ToString_nonempty [of v] replaceSpecials_nonempty
  by (auto simp: encodeRFC3986_def encodeURIComponent_def split: sum.splits)

lemma base64_length: "length (base64 bs) = 4 * ((length bs + 2) div 3)"
proof (induction bs rule: base64.induct)
  case (4 a b c bs)
  have "(length bs + 5) div 3 = (length bs + 2) div 3 + 1"
    by presburger
  with 4 show ?case
    by (simp add: add.commute)
qed simp_all

lemma unat_of_nat16: "m < 65536 \<Longrightarrow> unat (word_of_nat m :: 16 word) = m"
  by (simp add: unat_of_nat)

lemma b64char_alphabet: "isBase64Char (b64char n)"
  by (auto simp add: b64char_def isBase64Char_def isAlnum_def word_le_nat_alt unat_of_nat16
        simp del: of_nat_add of_nat_diff)

lemma pad_alphabet: "isBase64Char (cu CHR ''='')"
  by (simp add: isBase64Char_def)

lemma base64_alphabet: "c \<in> set (base64 bs) \<Longrightarrow> isBase64Char c"
  by (induction bs rule: base64.induct) (auto simp: b64char_alphabet pad_alphabet)

lemma signingKey_Inr_iff:
  "signingKey cfg = Inr key \<longleftrightarrow>
     (\<exists>cs ts. encodeRFC3986 (consumerSecret cfg) = Inr cs \<and>
              encodeRFC3986 (tokenSecret cfg) = Inr ts \<and> key = cs @ js ''&'' @ ts)"
  unfolding signingKey_def bindE_eq_Inr by auto

text \<open>
  Claim C4, as stated, fails where the token secret is absent: \<open>undefined\<close> is encoded as
  the text \<open>undefined\<close>, so the key would not end with the \<open>&\<close>; and such a
  configuration is rejected by the constructor, so it never reaches the signer.
\<close>

theorem signing_key_counterexample:
  "signingKey (cfg0\<lparr>tokenSecret := JSUndefined\<rparr>) = Inr (js ''CS&undefined'') \<and>
   signingKey (cfg0\<lparr>tokenSecret := JSUndefined\<rparr>) \<noteq> Inr (js ''CS&'') \<and>
   NetSuiteDownloader (cfg0\<lparr>tokenSecret := JSUndefined\<rparr>) =
     Inl (Error (js ''Missing required configuration: tokenSecret''))"
proof -
  have "signingKey (cfg0\<lparr>tokenSecret := JSUndefined\<rparr>) = Inr (js ''CS&undefined'')"
    by (simp add: enc_eval sign_eval)
  moreover have "js ''CS&undefined'' \<noteq> js ''CS&''"
    by (simp add: js_def)
  moreover have "NetSuiteDownloader (cfg0\<lparr>tokenSecret := JSUndefined\<rparr>) =
     Inl (Error (js ''Missing required configuration: tokenSecret''))"
    by (simp add: NetSuiteDownloader_def validateConfig_def missing_fields cfg0_def js_def)
  ultimately show ?thesis by simp
qed

text \<open>
  Claim C4, amended. For a constructed signer (every required field present and not
  empty) and a call that returns, the signature rendered into the header is the padded
  standard-alphabet base64 text of the HMAC-SHA256 digest of the signature base string
  under the key percent-encode(consumerSecret), \<open>&\<close>, percent-encode(tokenSecret), where
  the part after the \<open>&\<close> is not empty.
\<close>

theorem signature_base64_hmac:
  assumes "NetSuiteDownloader cfg = Inr d" and "generateOAuthHeader e d u method = Inr h"
  shows "(\<exists>urlObj pstr bstr cs ts parts.
            parseURL e u = Some urlObj \<and>
            paramString (allParams e d urlObj) = Inr pstr \<and>
            baseString method (baseUrl urlObj) pstr = Inr bstr \<and>
            encodeRFC3986 (consumerSecret d) = Inr cs \<and>
            encodeRFC3986 (tokenSecret d) = Inr ts \<and> ts \<noteq> [] \<and>
            headerParts d (nonce e) (base64 (hmacSha256 e (cs @ js ''&'' @ ts) bstr)) (timestamp e) =
              Inr parts \<and>
            h = js ''OAuth '' @ join (js '', '') parts) \<and>
         (\<forall>bs. length (base64 bs) = 4 * ((length bs + 2) div 3) \<and>
               (\<forall>c\<in>set (base64 bs). isBase64Char c))"
proof -
  from assms(1) have t: "truthy (tokenSecret d)"
    by (simp add: constructor_accepts)
  from assms(2) obtain urlObj pstr bstr key parts where
    a: "parseURL e u = Some urlObj" "paramString (allParams e d urlObj) = Inr pstr"
      "baseString method (baseUrl urlObj) pstr = Inr bstr" and
    k: "signingKey d = Inr key" and
    p: "headerParts d (nonce e) (signature e key bstr) (timestamp e) = Inr parts" and
    h: "h = js ''OAuth '' @ join (js '', '') parts"
    unfolding generateOAuthHeader_Inr_iff by blast
  from k obtain cs ts where
    c: "encodeRFC3986 (consumerSecret d) = Inr cs" "encodeRFC3986 (tokenSecret d) = Inr ts" and
    key: "key = cs @ js ''&'' @ ts"
    unfolding signingKey_Inr_iff by blast
  from c(2) t have "ts \<noteq> []"
    by (rule encodeRFC3986_nonempty)
  moreover from p have
    "headerParts d (nonce e) (base64 (hmacSha256 e (cs @ js ''&'' @ ts) bstr)) (timestamp e) = Inr parts"
    by (simp add: signature_def key)
  ultimately have "\<exists>urlObj pstr bstr cs ts parts.
            parseURL e u = Some urlObj \<and>
            paramString (allParams e d urlObj) = Inr pstr \<and>
            baseString method (baseUrl urlObj) pstr = Inr bstr \<and>
            encodeRFC3986 (consumerSecret d) = Inr cs \<and>
            encodeRFC3986 (tokenSecret d) = Inr ts \<and> ts \<noteq> [] \<and>
            headerParts d (nonce e) (base64 (hmacSha256 e (cs @ js ''&'' @ ts) bstr)) (timestamp e) =
              Inr parts \<and>
            h = js ''OAuth '' @ join (js '', '') parts"
    using a c h by blast
  then show ?thesis
    using base64_length base64_alphabet by blast
qed

theorem signature_base64_hmac_witness:
  \<open>NetSuiteDownloader cfg0 = Inr cfg0 \<and>
   (\<exists>urlObj pstr bstr cs ts parts.
      parseURL env0 (js ''https://example.com/app.nl?script=1&deploy=1'') = Some urlObj \<and>
      paramString (allParams env0 cfg0 urlObj) = Inr pstr \<and>
      baseString (js ''POST'') (baseUrl urlObj) pstr = Inr bstr \<and>
      encodeRFC3986 (consumerSecret cfg0) = Inr cs \<and>
      encodeRFC3986 (tokenSecret cfg0) = Inr ts \<and> ts \<noteq> [] \<and>
      headerParts cfg0 (nonce env0) (base64 (hmacSha256 env0 (cs @ js ''&'' @ ts) bstr))
        (timestamp env0) = Inr parts \<and>
      js ''OAuth realm="ACCT1", oauth_consumer_key="CK", oauth_nonce="000123456789abcdef1032547698badc", oauth_signature="ABCDEFGHIJKLMNOPQRSTUVWXYZabcdefghijklmn%2B%2F8%3D", oauth_signature_method="HMAC-SHA256", oauth_timestamp="1700000000", oauth_token="TK", oauth_version="1.0"'' =
        js ''OAuth '' @ join (js '', '') parts) \<and>
   base64 digest0 = js ''ABCDEFGHIJKLMNOPQRSTUVWXYZabcdefghijklmn+/8=''\<close>
proof -
  have c: "NetSuiteDownloader cfg0 = Inr cfg0"
    by (simp add: constructor_accepts cfg0_def js_def)
  have b: "base64 digest0 = js ''ABCDEFGHIJKLMNOPQRSTUVWXYZabcdefghijklmn+/8=''"
    by (simp add: digest0_def b64char_def js_def cu_def)
  show ?thesis
    by (intro conjI c b conjunct1 [OF signature_base64_hmac [OF c vec_header]])
qed

section \<open>Nonce and timestamp\<close>

lemma unat_of_nat_unit: "m < 65536 \<Longrightarrow> unat (word_of_nat m :: 16 word) = m"
  by (simp add: unat_of_nat)

lemma digitChar_unat: "d < 16 \<Longrightarrow> unat (digitChar d) = (if d < 10 then 48 + d else 87 + d)"
  by (simp add: digitChar_def unat_of_nat_unit del: of_nat_add of_nat_diff)

lemma digitChar_hex: "d < 16 \<Longrightarrow> isHexDigit (digitChar d)"
  by (auto simp: isHexDigit_def word_le_nat_alt digitChar_unat)

lemma digitChar_inj:
  assumes "d < 16" and "d' < 16" and "digitChar d = digitChar d'"
  shows "d = d'"
proof -
  from assms(3) have "unat (digitChar d) = unat (digitChar d')" by simp
  with assms(1,2) show ?thesis
    by (simp add: digitChar_unat split: if_splits)
qed

lemma octet_unat: "unat (b :: 8 word) < 256"
  using unsigned_less [of b, where 'a = nat] by simp

lemma hexByte_inj:
  assumes "hexByte a = hexByte b"
  shows "a = b"
proof -
  have lt: "unat a div 16 < 16" "unat a mod 16 < 16" "unat b div 16 < 16" "unat b mod 16 < 16"
    using octet_unat [of a] octet_unat [of b] by auto
  from assms have "digitChar (unat a div 16) = digitChar (unat b div 16)"
    and "digitChar (unat a mod 16) = digitChar (unat b mod 16)"
    by (simp_all add: hexByte_def)
  then have "unat a div 16 = unat b div 16" and "unat a mod 16 = unat b mod 16"
    using digitChar_inj [OF lt(1) lt(3)] digitChar_inj [OF lt(2) lt(4)] by blast+
  then have "unat a = unat b"
    by (metis div_mult_mod_eq)
  then show ?thesis
    by (simp add: word_unat_eq_iff)
qed

lemma toHex_Cons: "toHex (b # bs) = hexByte b @ toHex bs"
  by (simp add: toHex_def)

lemma toHex_inj: "toHex xs = toHex ys \<Longrightarrow> xs = ys"
proof (induction xs arbitrary: ys)
  case Nil
  then show ?case by (cases ys) (simp_all add: toHex_def hexByte_def)
next
  case (Cons x xs)
  show ?case
  proof (cases ys)
    case Nil
    with Cons.prems show ?thesis by (simp add: toHex_def hexByte_def)
  next
    case (Cons y ys')
    with Cons.prems have "hexByte x @ toHex xs = hexByte y @ toHex ys'"
      by (simp add: toHex_Cons)
    then have "hexByte x = hexByte y" and "toHex xs = toHex ys'"
      by (simp_all add: hexByte_def)
    with Cons.IH Cons show ?thesis
      by (simp add: hexByte_inj)
  qed
qed

lemma toHex_length: "length (toHex bs) = 2 * length bs"
  by (induction bs) (simp_all add: toHex_def hexByte_def)

lemma toHex_hex: "c \<in> set (toHex bs) \<Longrightarrow> isHexDigit c"
proof (induction bs)
  case Nil
  then show ?case by (simp add: toHex_def)
next
  case (Cons b bs)
  have "unat b div 16 < 16" "unat b mod 16 < 16"
    using octet_unat [of b] by auto
  then have "isHexDigit (digitChar (unat b div 16))" "isHexDigit (digitChar (unat b mod 16))"
    by (simp_all add: digitChar_hex)
  with Cons show ?case
    by (auto simp: toHex_Cons hexByte_def)
qed

lemma alnum_plain: "isAlnum c \<Longrightarrow> uriUnescaped c \<and> replaceSpecial c = [c]"
  by (auto simp: uriUnescaped_def replaceSpecial_def special_iff alnum_unreserved)

lemma Encode_alnum: "\<forall>c\<in>set s. isAlnum c \<Longrightarrow> Encode s = Inr s"
  by (induction s) (simp_all add: alnum_plain prependE_def)

lemma replaceSpecials_alnum: "\<forall>c\<in>set s. isAlnum c \<Longrightarrow> replaceSpecials s = s"
  by (induction s) (simp_all add: alnum_plain replaceSpecials_def)

lemma toRadix_decimal: "c \<in> set (toRadix 10 n) \<Longrightarrow> isAlnum c"
proof (induction "10 :: nat" n arbitrary: c rule: toRadix.induct)
  case (1 n)
  have d: "isAlnum (digitChar m)" if "m < 10" for m
    using that
    by (simp add: isAlnum_def word_le_nat_alt digitChar_def unat_of_nat_unit
          del: of_nat_add of_nat_diff)
  show ?case
  proof (cases "n < 10")
    case True
    with 1(2) d [of n] show ?thesis
      by (simp add: toRadix.simps [of 10 n])
  next
    case False
    with 1(2) have "c \<in> set (toRadix 10 (n div 10)) \<or> c = digitChar (n mod 10)"
      by (auto simp: toRadix.simps [of 10 n])
    with 1(1) False d [of "n mod 10"] show ?thesis
      by auto
  qed
qed

lemma encode_timestamp:
  "0 \<le> t \<Longrightarrow> encodeRFC3986 (JSNumber t) = Inr (toRadix 10 (nat t))"
  using toRadix_decimal
  by (simp add: encodeRFC3986_def encodeURIComponent_def Encode_alnum replaceSpecials_alnum)

text \<open>
  Claim C9, as stated, fails in its last part: the timestamp is placed into the OAuth
  parameter set as a number, not as a string.
\<close>

theorem timestamp_param_counterexample:
  "getProp (allParams env0 cfg0 url0) (js ''oauth_timestamp'') = JSNumber 1700000000 \<and>
   \<not> isString (getProp (allParams env0 cfg0 url0) (js ''oauth_timestamp''))"
proof -
  have "getProp (allParams env0 cfg0 url0) (js ''oauth_timestamp'') = JSNumber 1700000000"
    by (simp add: sign_eval js_def cu_def)
  then show ?thesis by simp
qed

text \<open>
  Claim C9, amended. Given 16 octets from the random source, the nonce is their
  lower-case hexadecimal text: 32 printable characters that determine all 16 octets.
  The timestamp is the clock reading in whole seconds; it is placed into the OAuth
  parameter set as a number and becomes its decimal text when it is percent-encoded.
\<close>

theorem nonce_and_timestamp:
  assumes "length (randomBytes e 16) = 16"
  shows "length (nonce e) = 32 \<and>
         (\<forall>c\<in>set (nonce e). isHexDigit c) \<and>
         (\<forall>bs. toHex bs = nonce e \<longrightarrow> bs = randomBytes e 16) \<and>
         getProp (oauthParams cfg (nonce e) (timestamp e)) (js ''oauth_nonce'') = JSString (nonce e) \<and>
         getProp (oauthParams cfg (nonce e) (timestamp e)) (js ''oauth_timestamp'') =
           JSNumber (timestamp e) \<and>
         1000 * timestamp e \<le> dateNow e \<and> dateNow e < 1000 * timestamp e + 1000 \<and>
         (0 \<le> dateNow e \<longrightarrow>
            encodeRFC3986 (JSNumber (timestamp e)) = Inr (toRadix 10 (nat (timestamp e))))"
proof -
  have "length (nonce e) = 32"
    using assms by (simp add: nonce_def toHex_length)
  moreover have "\<forall>c\<in>set (nonce e). isHexDigit c"
    by (simp add: nonce_def toHex_hex)
  moreover have "\<forall>bs. toHex bs = nonce e \<longrightarrow> bs = randomBytes e 16"
    by (simp add: nonce_def toHex_inj)
  moreover have "getProp (oauthParams cfg (nonce e) (timestamp e)) (js ''oauth_nonce'') = JSString (nonce e)"
    "getProp (oauthParams cfg (nonce e) (timestamp e)) (js ''oauth_timestamp'') = JSNumber (timestamp e)"
    by (simp_all add: getProp_def oauthParams_def js_def cu_def)
  moreover have "1000 * timestamp e \<le> dateNow e" "dateNow e < 1000 * timestamp e + 1000"
    by (simp_all add: timestamp_def)
  moreover have "0 \<le> dateNow e \<longrightarrow>
      encodeRFC3986 (JSNumber (timestamp e)) = Inr (toRadix 10 (nat (timestamp e)))"
    by (simp add: encode_timestamp timestamp_def)
  ultimately show ?thesis by blast
qed

theorem nonce_and_timestamp_witness:
  "length (randomBytes env0 16) = 16 \<and>
   nonce env0 = js ''000123456789abcdef1032547698badc'' \<and>
   length (nonce env0) = 32 \<and>
   getProp (oauthParams cfg0 (nonce env0) (timestamp env0)) (js ''oauth_timestamp'') =
     JSNumber 1700000000 \<and>
   encodeRFC3986 (JSNumber (timestamp env0)) = Inr (js ''1700000000'')"
proof -
  have l: "length (randomBytes env0 16) = 16"
    by (simp add: env0_def)
  have t: "timestamp env0 = 1700000000" "0 \<le> dateNow env0"
    by (simp_all add: timestamp_def env0_def)
  have d: "toRadix 10 (nat 1700000000) = js ''1700000000''"
    by (simp add: toRadix.simps digitChar_def js_def cu_def)
  have n: "nonce env0 = js ''000123456789abcdef1032547698badc''"
    by (simp add: sign_eval toRadix.simps digitChar_def js_def cu_def)
  from nonce_and_timestamp [OF l, of cfg0] l t d n show ?thesis
    by simp
qed

section \<open>The canonical parameter string\<close>

lemma bindE_assoc: "bindE (bindE r f) g = bindE r (\<lambda>x. bindE (f x) g)"
  by (cases r) simp_all

lemma mapE_cong: "(\<And>x. x \<in> set xs \<Longrightarrow> f x = g x) \<Longrightarrow> mapE f xs = mapE g xs"
  by (induction xs) simp_all

lemma mapE_map: "mapE f (map g xs) = mapE (\<lambda>x. f (g x)) xs"
  by (induction xs) simp_all

lemma mapE_then_map:
  "mapE (\<lambda>x. bindE (f x) (\<lambda>y. Inr (h y))) xs = bindE (mapE f xs) (\<lambda>ys. Inr (map h ys))"
proof (induction xs)
  case Nil
  show ?case by simp
next
  case (Cons x xs)
  show ?case
    by (cases "f x"; cases "mapE f xs") (simp_all add: Cons)
qed

lemma encodePair_encodeKV:
  "encodePair ob k = bindE (encodeKV (k, getProp ob k)) (\<lambda>p. Inr (renderKV p))"
  by (cases "encodeRFC3986 (JSString k)"; cases "encodeRFC3986 (getProp ob k)")
     (simp_all add: encodePair_def encodeKV_def renderKV_def)

lemma getProp_distinct: "distinct (map fst ob) \<Longrightarrow> (k, v) \<in> set ob \<Longrightarrow> getProp ob k = v"
  by (simp add: getProp_def)

lemma insort_map_key: "insort (f x) (map f ys) = map f (insort_key f x ys)"
  by (induction ys) simp_all

lemma sort_map_key: "sort (map f xs) = map f (sort_key f xs)"
  by (induction xs) (simp_all add: insort_map_key)

lemma paramString_sorted_pairs:
  assumes "distinct (map fst ob)"
  shows "paramString ob =
           bindE (mapE encodeKV (sort_key fst ob))
             (\<lambda>eps. Inr (join (js ''&'') (map renderKV eps)))"
proof -
  have "mapE (encodePair ob) (sort (Object_keys ob)) =
        mapE (\<lambda>p. encodePair ob (fst p)) (sort_key fst ob)"
    by (simp add: sort_Object_keys sort_map_key mapE_map)
  also have "\<dots> = mapE (\<lambda>p. bindE (encodeKV p) (\<lambda>q. Inr (renderKV q))) (sort_key fst ob)"
  proof (rule mapE_cong)
    fix p assume "p \<in> set (sort_key fst ob)"
    then have "(fst p, snd p) \<in> set ob" by simp
    with assms have "getProp ob (fst p) = snd p" by (rule getProp_distinct)
    then show "encodePair ob (fst p) = bindE (encodeKV p) (\<lambda>q. Inr (renderKV q))"
      by (simp add: encodePair_encodeKV)
  qed
  also have "\<dots> = bindE (mapE encodeKV (sort_key fst ob)) (\<lambda>eps. Inr (map renderKV eps))"
    by (rule mapE_then_map)
  finally show ?thesis
    by (simp add: paramString_def bindE_assoc)
qed

lemma keys_setOwn:
  "map fst (setOwn ob k v) = (if k \<in> set (map fst ob) then map fst ob else map fst ob @ [k])"
proof (induction ob)
  case Nil
  show ?case by simp
next
  case (Cons p ob)
  obtain k' v' where p: "p = (k', v')" by (cases p)
  show ?case
    using Cons unfolding p by (cases "k' = k") (simp_all split: if_splits)
qed

lemma distinct_setOwn: "distinct (map fst ob) \<Longrightarrow> distinct (map fst (setOwn ob k v))"
  by (simp add: keys_setOwn)

lemma distinct_spread: "distinct (map fst a) \<Longrightarrow> distinct (map fst (spread a b))"
  unfolding spread_def
  by (induction b arbitrary: a) (auto simp: distinct_setOwn)

lemma distinct_oauthParams: "distinct (map fst (oauthParams cfg n t))"
  by (simp add: oauthParams_def js_def cu_def)

lemma distinct_allParams: "distinct (map fst (allParams e cfg urlObj))"
  by (simp add: allParams_def distinct_spread distinct_oauthParams)

text \<open>
  Claim C2, as stated, fails: the keys are sorted before they are encoded. The raw key
  \<open>a-b\<close> precedes \<open>a/b\<close>, while the encoded key \<open>a%2Fb\<close> precedes \<open>a-b\<close>.
\<close>

theorem canonical_order_counterexample:
  "paramString (allParams env0 cfg0 url1) =
     Inr (js ''a-b=2&a%2Fb=1&oauth_consumer_key=CK&oauth_nonce=000123456789abcdef1032547698badc&oauth_signature_method=HMAC-SHA256&oauth_timestamp=1700000000&oauth_token=TK&oauth_version=1.0'') \<and>
   canonical_by_encoded_key (allParams env0 cfg0 url1) =
     Inr (js ''a%2Fb=1&a-b=2&oauth_consumer_key=CK&oauth_nonce=000123456789abcdef1032547698badc&oauth_signature_method=HMAC-SHA256&oauth_timestamp=1700000000&oauth_token=TK&oauth_version=1.0'') \<and>
   paramString (allParams env0 cfg0 url1) \<noteq> canonical_by_encoded_key (allParams env0 cfg0 url1)"
proof -
  have 1: "paramString (allParams env0 cfg0 url1) =
     Inr (js ''a-b=2&a%2Fb=1&oauth_consumer_key=CK&oauth_nonce=000123456789abcdef1032547698badc&oauth_signature_method=HMAC-SHA256&oauth_timestamp=1700000000&oauth_token=TK&oauth_version=1.0'')"
    by (simp add: enc_eval sign_eval url1_def)
  have 2: "canonical_by_encoded_key (allParams env0 cfg0 url1) =
     Inr (js ''a%2Fb=1&a-b=2&oauth_consumer_key=CK&oauth_nonce=000123456789abcdef1032547698badc&oauth_signature_method=HMAC-SHA256&oauth_timestamp=1700000000&oauth_token=TK&oauth_version=1.0'')"
    by (simp add: enc_eval sign_eval url1_def canonical_by_encoded_key_def encodeKV_def
          renderKV_def)
  have 3: "paramString (allParams env0 cfg0 url1) \<noteq> canonical_by_encoded_key (allParams env0 cfg0 url1)"
    unfolding 1 2 by (simp add: js_def cu_def)
  show ?thesis
    by (intro conjI 1 2 3)
qed

text \<open>
  Claim C2, amended. For every parameter set (the six fixed OAuth protocol parameters
  merged with the decoded query parameters of the target URL) the names are unique, and
  the canonical parameter string is the list of pairs sorted by the raw (not yet
  encoded) name in code-unit order, each name and value then percent-encoded, written
  \<open>name=value\<close> and joined with \<open>&\<close> in that order; no ties arise.
\<close>

theorem canonical_parameter_string:
  "distinct (map fst (allParams e cfg urlObj)) \<and>
   paramString (allParams e cfg urlObj) =
     bindE (mapE encodeKV (sort_key fst (allParams e cfg urlObj)))
       (\<lambda>eps. Inr (join (js ''&'') (map renderKV eps))) \<and>
   sorted (map fst (sort_key fst (allParams e cfg urlObj))) \<and>
   mset (sort_key fst (allParams e cfg urlObj)) = mset (allParams e cfg urlObj)"
  using distinct_allParams [of e cfg urlObj]
  by (simp add: paramString_sorted_pairs)

theorem canonical_parameter_string_witness:
  "sort_key fst (allParams env0 cfg0 url1) =
     [(js ''a-b'', JSString (js ''2'')), (js ''a/b'', JSString (js ''1'')),
      (js ''oauth_consumer_key'', JSString (js ''CK'')),
      (js ''oauth_nonce'', JSString (js ''000123456789abcdef1032547698badc'')),
      (js ''oauth_signature_method'', JSString (js ''HMAC-SHA256'')),
      (js ''oauth_timestamp'', JSNumber 1700000000),
      (js ''oauth_token'', JSString (js ''TK'')),
      (js ''oauth_version'', JSString (js ''1.0''))] \<and>
   paramString (allParams env0 cfg0 url1) =
     bindE (mapE encodeKV
       [(js ''a-b'', JSString (js ''2'')), (js ''a/b'', JSString (js ''1'')),
        (js ''oauth_consumer_key'', JSString (js ''CK'')),
        (js ''oauth_nonce'', JSString (js ''000123456789abcdef1032547698badc'')),
        (js ''oauth_signature_method'', JSString (js ''HMAC-SHA256'')),
        (js ''oauth_timestamp'', JSNumber 1700000000),
        (js ''oauth_token'', JSString (js ''TK'')),
        (js ''oauth_version'', JSString (js ''1.0''))])
       (\<lambda>eps. Inr (join (js ''&'') (map renderKV eps)))"
proof -
  have s: "sort_key fst (allParams env0 cfg0 url1) =
     [(js ''a-b'', JSString (js ''2'')), (js ''a/b'', JSString (js ''1'')),
      (js ''oauth_consumer_key'', JSString (js ''CK'')),
      (js ''oauth_nonce'', JSString (js ''000123456789abcdef1032547698badc'')),
      (js ''oauth_signature_method'', JSString (js ''HMAC-SHA256'')),
      (js ''oauth_timestamp'', JSNumber 1700000000),
      (js ''oauth_token'', JSString (js ''TK'')),
      (js ''oauth_version'', JSString (js ''1.0''))]"
    by (simp add: sign_eval url1_def toRadix.simps digitChar_def js_def cu_def)
  from canonical_parameter_string [of env0 cfg0 url1] show ?thesis
    unfolding s by simp
qed

section \<open>Order of the input mapping\<close>

text \<open>
  Claim C8. Presenting the same (name, value) pairs of a parameter set (an object: its
  names are unique) in any order yields the same canonical parameter string.
\<close>

theorem canonicalization_order_invariant:
  assumes "distinct (map fst ps)" and "mset qs = mset ps"
  shows "paramString qs = paramString ps"
proof -
  from assms(2) have k: "mset (map fst qs) = mset (map fst ps)"
    by (metis mset_map)
  have "mset (sort (map fst qs)) = mset (map fst ps)"
    using k by simp
  then have keys: "sort (map fst ps) = sort (map fst qs)"
    by (rule properties_for_sort) simp
  from k assms(1) have dq: "distinct (map fst qs)"
    by (metis mset_eq_imp_distinct_iff)
  from assms(2) have "set qs = set ps"
    by (rule mset_eq_setD)
  with assms(1) dq have "map_of qs = map_of ps"
    by (simp add: map_of_inject_set)
  then have "encodePair qs = encodePair ps"
    by (simp add: encodePair_def getProp_def fun_eq_iff)
  with keys show ?thesis
    by (simp add: paramString_def sort_Object_keys)
qed

theorem canonicalization_order_invariant_witness:
  "paramString [(js ''b'', JSString (js ''1'')), (js ''a'', JSNumber 2)] =
     paramString [(js ''a'', JSNumber 2), (js ''b'', JSString (js ''1''))] \<and>
   paramString [(js ''a'', JSNumber 2), (js ''b'', JSString (js ''1''))] = Inr (js ''a=2&b=1'')"
proof -
  have d: "distinct (map fst [(js ''a'', JSNumber 2), (js ''b'', JSString (js ''1''))])"
    by (simp add: js_def cu_def)
  have m: "mset [(js ''b'', JSString (js ''1'')), (js ''a'', JSNumber 2)] =
           mset [(js ''a'', JSNumber 2), (js ''b'', JSString (js ''1''))]"
    by (simp add: add.commute)
  have v: "paramString [(js ''a'', JSNumber 2), (js ''b'', JSString (js ''1''))] = Inr (js ''a=2&b=1'')"
    by (simp add: enc_eval sign_eval)
  from canonicalization_order_invariant [OF d m] v show ?thesis
    by simp
qed

section \<open>A query parameter named like a protocol parameter\<close>

lemma map_of_setOwn: "map_of (setOwn ob k v) k' = (if k' = k then Some v else map_of ob k')"
  by (induction ob) auto

lemma map_of_assign:
  "k \<noteq> js ''__proto__'' \<Longrightarrow>
   map_of (assign ob k' v) k = (if k' = k then Some v else map_of ob k)"
  by (auto simp: assign_def map_of_setOwn)

lemma map_of_spread:
  "map_of (spread a b) k = (case map_of (rev b) k of None \<Rightarrow> map_of a k | Some v \<Rightarrow> Some v)"
  unfolding spread_def
proof (induction b arbitrary: a)
  case Nil
  show ?case by simp
next
  case (Cons p b)
  obtain k' v' where p: "p = (k', v')" by (cases p)
  show ?case
    by (simp add: p Cons.IH map_of_setOwn map_add_def split: option.splits)
qed

lemma map_of_query:
  assumes "k \<noteq> js ''__proto__''"
  shows "map_of (foldl (\<lambda>ob (key, value). assign ob key (JSString value)) ob xs) k =
           (case map_of (rev xs) k of None \<Rightarrow> map_of ob k | Some v \<Rightarrow> Some (JSString v))"
proof (induction xs arbitrary: ob)
  case Nil
  show ?case by simp
next
  case (Cons p xs)
  obtain k' v' where p: "p = (k', v')" by (cases p)
  show ?case
    by (simp add: p Cons.IH map_of_assign [OF assms] map_add_def split: option.splits)
qed

lemma queryParams_last:
  assumes "searchParams urlObj = xs @ (k, v) # ys" and "k \<notin> fst ` set ys"
    and "k \<noteq> js ''__proto__''"
  shows "map_of (queryParams urlObj) k = Some (JSString v)"
proof -
  from assms(2) have "map_of (rev ys) k = None"
    by (simp add: map_of_eq_None_iff)
  then have "map_of (rev (searchParams urlObj)) k = Some v"
    unfolding assms(1) by (simp add: map_add_def)
  then show ?thesis
    unfolding queryParams_def map_of_query [OF assms(3)] by simp
qed

lemma distinct_query:
  "distinct (map fst ob) \<Longrightarrow>
   distinct (map fst (foldl (\<lambda>ob (key, value). assign ob key (JSString value)) ob xs))"
  by (induction xs arbitrary: ob) (auto simp: assign_def distinct_setOwn)

lemma distinct_queryParams: "distinct (map fst (queryParams urlObj))"
  by (simp add: queryParams_def distinct_query)

lemma allParams_query_value:
  assumes "map_of (queryParams urlObj) k = Some qv"
  shows "getProp (allParams e cfg urlObj) k = qv"
proof -
  have "set (rev (queryParams urlObj)) = set (queryParams urlObj)" by simp
  then have "map_of (rev (queryParams urlObj)) = map_of (queryParams urlObj)"
    using distinct_queryParams [of urlObj]
    by (subst map_of_inject_set) (simp_all add: rev_map [symmetric])
  with assms show ?thesis
    by (simp add: getProp_def allParams_def map_of_spread)
qed

lemma protocol_names:
  "set (Object_keys (oauthParams cfg n t)) =
     set [js ''oauth_consumer_key'', js ''oauth_nonce'', js ''oauth_signature_method'',
          js ''oauth_timestamp'', js ''oauth_token'', js ''oauth_version'']"
  by (simp add: set_Object_keys oauthParams_def)

lemma protocol_values:
  "getProp (oauthParams cfg n t) (js ''oauth_consumer_key'') = consumerKey cfg"
  "getProp (oauthParams cfg n t) (js ''oauth_nonce'') = JSString n"
  "getProp (oauthParams cfg n t) (js ''oauth_signature_method'') = JSString (js ''HMAC-SHA256'')"
  "getProp (oauthParams cfg n t) (js ''oauth_timestamp'') = JSNumber t"
  "getProp (oauthParams cfg n t) (js ''oauth_token'') = tokenId cfg"
  "getProp (oauthParams cfg n t) (js ''oauth_version'') = JSString (js ''1.0'')"
  by (simp_all add: getProp_def oauthParams_def js_def cu_def)

lemma constant_values:
  "encodeRFC3986 (JSString (js ''HMAC-SHA256'')) = Inr (js ''HMAC-SHA256'')"
  "encodeRFC3986 (JSString (js ''1.0'')) = Inr (js ''1.0'')"
  by (simp_all add: enc_eval)

lemma not_proto:
  "k \<in> set (Object_keys (oauthParams cfg n t)) \<Longrightarrow> k \<noteq> js ''__proto__''"
  by (auto simp: protocol_names js_def cu_def)

lemma rendered_protocol_value:
  assumes "headerParts cfg n sg t = Inr parts"
    and "k \<in> set (Object_keys (oauthParams cfg n t))"
  shows \<open>\<exists>pv. encodeRFC3986 (getProp (oauthParams cfg n t) k) = Inr pv \<and>
              k @ js ''="'' @ pv @ js ''"'' \<in> set parts\<close>
proof -
  from assms(1) obtain realm ck n' sg' ts tk where
    b: "encodeRFC3986 (consumerKey cfg) = Inr ck" "encodeRFC3986 (JSString n) = Inr n'"
      "encodeRFC3986 (JSNumber t) = Inr ts" "encodeRFC3986 (tokenId cfg) = Inr tk" and
    parts: \<open>parts = [js ''realm="'' @ realm @ js ''"'',
               js ''oauth_consumer_key="'' @ ck @ js ''"'',
               js ''oauth_nonce="'' @ n' @ js ''"'',
               js ''oauth_signature="'' @ sg' @ js ''"'',
               js ''oauth_signature_method="HMAC-SHA256"'',
               js ''oauth_timestamp="'' @ ts @ js ''"'',
               js ''oauth_token="'' @ tk @ js ''"'',
               js ''oauth_version="1.0"'']\<close>
    unfolding headerParts_Inr_iff by blast
  from assms(2) consider "k = js ''oauth_consumer_key''" | "k = js ''oauth_nonce''"
    | "k = js ''oauth_signature_method''" | "k = js ''oauth_timestamp''"
    | "k = js ''oauth_token''" | "k = js ''oauth_version''"
    unfolding protocol_names by auto
  then show ?thesis
  proof cases
    case 1
    have "encodeRFC3986 (getProp (oauthParams cfg n t) k) = Inr ck"
      unfolding 1 by (simp add: protocol_values b)
    moreover have \<open>k @ js ''="'' @ ck @ js ''"'' \<in> set parts\<close>
      unfolding 1 parts by (simp add: js_def)
    ultimately show ?thesis by blast
  next
    case 2
    have "encodeRFC3986 (getProp (oauthParams cfg n t) k) = Inr n'"
      unfolding 2 by (simp add: protocol_values b)
    moreover have \<open>k @ js ''="'' @ n' @ js ''"'' \<in> set parts\<close>
      unfolding 2 parts by (simp add: js_def)
    ultimately show ?thesis by blast
  next
    case 3
    have "encodeRFC3986 (getProp (oauthParams cfg n t) k) = Inr (js ''HMAC-SHA256'')"
      unfolding 3 by (simp add: protocol_values constant_values)
    moreover have \<open>k @ js ''="'' @ js ''HMAC-SHA256'' @ js ''"'' \<in> set parts\<close>
      unfolding 3 parts by (simp add: js_def)
    ultimately show ?thesis by blast
  next
    case 4
    have "encodeRFC3986 (getProp (oauthParams cfg n t) k) = Inr ts"
      unfolding 4 by (simp add: protocol_values b)
    moreover have \<open>k @ js ''="'' @ ts @ js ''"'' \<in> set parts\<close>
      unfolding 4 parts by (simp add: js_def)
    ultimately show ?thesis by blast
  next
    case 5
    have "encodeRFC3986 (getProp (oauthParams cfg n t) k) = Inr tk"
      unfolding 5 by (simp add: protocol_values b)
    moreover have \<open>k @ js ''="'' @ tk @ js ''"'' \<in> set parts\<close>
      unfolding 5 parts by (simp add: js_def)
    ultimately show ?thesis by blast
  next
    case 6
    have "encodeRFC3986 (getProp (oauthParams cfg n t) k) = Inr (js ''1.0'')"
      unfolding 6 by (simp add: protocol_values constant_values)
    moreover have \<open>k @ js ''="'' @ js ''1.0'' @ js ''"'' \<in> set parts\<close>
      unfolding 6 parts by (simp add: js_def)
    ultimately show ?thesis by blast
  qed
qed

lemma keys_spread: "set (map fst a) \<subseteq> set (map fst (spread a b))"
  unfolding spread_def
proof (induction b arbitrary: a)
  case Nil
  show ?case by simp
next
  case (Cons p b)
  obtain k v where p: "p = (k, v)" by (cases p)
  have "set (map fst a) \<subseteq> set (map fst (setOwn a k v))"
    by (auto simp: keys_setOwn)
  also have "\<dots> \<subseteq> set (map fst (foldl (\<lambda>ob (k, v). setOwn ob k v) (setOwn a k v) b))"
    by (rule Cons.IH)
  finally show ?case by (simp add: p)
qed

text \<open>
  Claim C10, as stated, fails where the query repeats the protocol value itself: with
  \<open>oauth_token=TK\<close> in the query and the token \<open>TK\<close> configured, the signed parameter
  set is the protocol parameter set, so the signed and the rendered value of that key
  do not differ.
\<close>

theorem query_override_counterexample:
  "searchParams url2 = [(js ''oauth_token'', js ''TK'')] \<and>
   allParams env0 cfg0 url2 = oauthParams cfg0 (nonce env0) (timestamp env0) \<and>
   getProp (allParams env0 cfg0 url2) (js ''oauth_token'') =
     getProp (oauthParams cfg0 (nonce env0) (timestamp env0)) (js ''oauth_token'')"
proof -
  have 1: "searchParams url2 = [(js ''oauth_token'', js ''TK'')]"
    by (simp add: url2_def)
  have 2: "allParams env0 cfg0 url2 = oauthParams cfg0 (nonce env0) (timestamp env0)"
    by (simp add: allParams_def queryParams_def 1 assign_def spread_def oauthParams_def cfg0_def
          js_def cu_def)
  show ?thesis
    by (simp add: 1 2)
qed

text \<open>
  Claim C10, amended. When the query string of the URL holds a key equal to one of the
  six protocol parameter names, the value signed for that key in the canonical
  parameter string is the (last) query value, and the key occurs there once, while the
  pair rendered into the Authorization header for that key holds the value derived
  from the credentials, the provider or the constant; the two differ whenever the
  query value is not the protocol value itself.
\<close>

theorem query_value_signed_protocol_value_rendered:
  assumes "searchParams urlObj = xs @ (k, v) # ys" and "k \<notin> fst ` set ys"
    and "k \<in> set (Object_keys (oauthParams cfg (nonce e) (timestamp e)))"
  shows \<open>getProp (allParams e cfg urlObj) k = JSString v \<and>
         encodePair (allParams e cfg urlObj) k =
           bindE (encodeRFC3986 (JSString k)) (\<lambda>k'.
           bindE (encodeRFC3986 (JSString v)) (\<lambda>v'. Inr (k' @ js ''='' @ v'))) \<and>
         k \<in> set (Object_keys (allParams e cfg urlObj)) \<and>
         distinct (Object_keys (allParams e cfg urlObj)) \<and>
         (\<forall>sg parts. headerParts cfg (nonce e) sg (timestamp e) = Inr parts \<longrightarrow>
            (\<exists>pv. encodeRFC3986 (getProp (oauthParams cfg (nonce e) (timestamp e)) k) = Inr pv \<and>
                  k @ js ''="'' @ pv @ js ''"'' \<in> set parts)) \<and>
         (JSString v \<noteq> getProp (oauthParams cfg (nonce e) (timestamp e)) k \<longrightarrow>
            getProp (allParams e cfg urlObj) k \<noteq>
              getProp (oauthParams cfg (nonce e) (timestamp e)) k)\<close>
proof -
  from assms(3) have np: "k \<noteq> js ''__proto__''"
    by (rule not_proto)
  have "map_of (queryParams urlObj) k = Some (JSString v)"
    using assms(1,2) np by (rule queryParams_last)
  then have g: "getProp (allParams e cfg urlObj) k = JSString v"
    by (rule allParams_query_value)
  then have p: "encodePair (allParams e cfg urlObj) k =
           bindE (encodeRFC3986 (JSString k)) (\<lambda>k'.
           bindE (encodeRFC3986 (JSString v)) (\<lambda>v'. Inr (k' @ js ''='' @ v')))"
    by (simp add: encodePair_def)
  have m: "k \<in> set (Object_keys (allParams e cfg urlObj))"
    using assms(3) keys_spread [of "oauthParams cfg (nonce e) (timestamp e)" "queryParams urlObj"]
    by (auto simp: set_Object_keys allParams_def)
  have d: "distinct (Object_keys (allParams e cfg urlObj))"
    by (simp add: distinct_Object_keys distinct_allParams)
  have r: \<open>\<forall>sg parts. headerParts cfg (nonce e) sg (timestamp e) = Inr parts \<longrightarrow>
            (\<exists>pv. encodeRFC3986 (getProp (oauthParams cfg (nonce e) (timestamp e)) k) = Inr pv \<and>
                  k @ js ''="'' @ pv @ js ''"'' \<in> set parts)\<close>
    using assms(3) by (blast intro: rendered_protocol_value)
  from g p m d r show ?thesis
    by simp
qed

theorem query_value_signed_protocol_value_rendered_witness:
  "searchParams (url0\<lparr>searchParams := [(js ''script'', js ''1''), (js ''oauth_token'', js ''EVIL'')]\<rparr>) =
     [(js ''script'', js ''1'')] @ (js ''oauth_token'', js ''EVIL'') # [] \<and>
   getProp (allParams env0 cfg0
       (url0\<lparr>searchParams := [(js ''script'', js ''1''), (js ''oauth_token'', js ''EVIL'')]\<rparr>))
     (js ''oauth_token'') = JSString (js ''EVIL'') \<and>
   getProp (oauthParams cfg0 (nonce env0) (timestamp env0)) (js ''oauth_token'') =
     JSString (js ''TK'') \<and>
   getProp (allParams env0 cfg0
       (url0\<lparr>searchParams := [(js ''script'', js ''1''), (js ''oauth_token'', js ''EVIL'')]\<rparr>))
     (js ''oauth_token'') \<noteq>
     getProp (oauthParams cfg0 (nonce env0) (timestamp env0)) (js ''oauth_token'')"
proof -
  let ?u = "url0\<lparr>searchParams := [(js ''script'', js ''1''), (js ''oauth_token'', js ''EVIL'')]\<rparr>"
  have 1: "searchParams ?u = [(js ''script'', js ''1'')] @ (js ''oauth_token'', js ''EVIL'') # []"
    by simp
  have 2: "js ''oauth_token'' \<notin> fst ` set []"
    by simp
  have 3: "js ''oauth_token'' \<in> set (Object_keys (oauthParams cfg0 (nonce env0) (timestamp env0)))"
    by (simp add: protocol_names)
  have 4: "getProp (oauthParams cfg0 (nonce env0) (timestamp env0)) (js ''oauth_token'') =
     JSString (js ''TK'')"
    by (simp add: protocol_values cfg0_def)
  have 5: "JSString (js ''EVIL'') \<noteq> JSString (js ''TK'')"
    by (simp add: js_def cu_def)
  from query_value_signed_protocol_value_rendered [OF 1 2 3] 1 4 5 show ?thesis
    by simp
qed

end
